theory Spec2Isabelle
  imports Complex_Main "HOL-Library.Word" "HOL-Library.Sublist"
begin

section \<open>JavaScript values used by \<open>lib/app.js\<close>\<close>

text \<open>
  A JavaScript string is a sequence of 16-bit code units. Paths, browser ids, URLs and
  messages of \<open>lib/app.js\<close> are all such strings, so they are modelled as lists of
  16-bit words. ASCII literals of the source are written with \<open>ascii\<close>.

  The functions and methods of \<open>lib/app.js\<close> keep their names; a name that starts with
  an underscore in the source (\<open>_pathToURL\<close>, \<open>_readTests\<close>, \<open>_recreateTmpDirs\<close>,
  \<open>_deleteRefImg\<close>, ...) is written without it.
\<close>

type_synonym jschar = "16 word"
type_synonym jsstring = "jschar list"

definition ascii :: "string \<Rightarrow> jsstring" where
  "ascii s = map (\<lambda>c. of_nat (of_char c)) s"

text \<open>
  Errors with which a promise of the program is rejected, or which a call throws:
  \<open>Error msg\<close> is \<open>new Error(msg)\<close>; \<open>TypeError\<close> is thrown by \<open>path.relative\<close> on
  \<open>undefined\<close>; \<open>URIError\<close> by \<open>encodeURI\<close> on a lone surrogate; the \<open>E...\<close> errors are
  the file system's; \<open>ExecError\<close> is a failed subprocess; \<open>EngineError\<close> is a rejection
  of the test-execution engine.
\<close>

datatype error =
    Error jsstring
  | TypeError
  | URIError
  | ENOENT
  | EEXIST
  | ENOTDIR
  | EISDIR
  | ExecError nat
  | EngineError jsstring

text \<open>The decimal digits of a non-negative integer, as number-to-string conversion prints them.\<close>

function decimal :: "nat \<Rightarrow> jsstring" where
  "decimal n =
     (if n < 10 then [of_nat (48 + n)]
      else decimal (n div 10) @ [of_nat (48 + n mod 10)])"
  by pat_completeness auto
termination
proof (relation "measure id")
  show "wf (measure id)" by simp
next
  fix n :: nat
  assume "\<not> n < 10"
  then have "n div 10 < n" by simp
  then show "(n div 10, n) \<in> measure id" by simp
qed

declare decimal.simps [simp del]

text \<open>
  A JavaScript number as far as \<open>_calcCompression\<close> can produce one: an integer, or one
  of the three non-finite values a division by zero gives.
\<close>

datatype jsnum = Num int | NaN | PosInfinity | NegInfinity

fun numberToString :: "jsnum \<Rightarrow> jsstring" where
  "numberToString (Num i) =
     (if i < 0 then ascii ''-'' @ decimal (nat (- i)) else decimal (nat i))"
| "numberToString NaN = ascii ''NaN''"
| "numberToString PosInfinity = ascii ''Infinity''"
| "numberToString NegInfinity = ascii ''-Infinity''"

section \<open>\<open>encodeURI\<close>\<close>

text \<open>
  \<open>encodeURI\<close> is the \<open>Encode\<close> operation of ECMAScript with the unescaped set
  \<open>uriReserved\<close>, \<open>uriUnescaped\<close> and \<open>#\<close>. Every other code point is written as the
  percent-escapes of its UTF-8 octets; a surrogate that is not part of a pair throws
  \<open>URIError\<close>.
\<close>

definition uriReserved :: "jsstring" where
  "uriReserved = ascii '';/?:@&=+$,''"

definition uriAlpha :: "jschar \<Rightarrow> bool" where
  "uriAlpha c \<longleftrightarrow> (0x41 \<le> c \<and> c \<le> 0x5A) \<or> (0x61 \<le> c \<and> c \<le> 0x7A)"

definition decimalDigit :: "jschar \<Rightarrow> bool" where
  "decimalDigit c \<longleftrightarrow> 0x30 \<le> c \<and> c \<le> 0x39"

definition uriMark :: "jsstring" where
  "uriMark = ascii ''-_.!~*()'' @ [0x27]"

definition unescapedURISet :: "jschar \<Rightarrow> bool" where
  "unescapedURISet c \<longleftrightarrow>
     c \<in> set uriReserved \<or> uriAlpha c \<or> decimalDigit c \<or> c \<in> set uriMark \<or> c = 0x23"

definition isHighSurrogate :: "jschar \<Rightarrow> bool" where
  "isHighSurrogate c \<longleftrightarrow> 0xD800 \<le> c \<and> c \<le> 0xDBFF"

definition isLowSurrogate :: "jschar \<Rightarrow> bool" where
  "isLowSurrogate c \<longleftrightarrow> 0xDC00 \<le> c \<and> c \<le> 0xDFFF"

definition pairCodePoint :: "jschar \<Rightarrow> jschar \<Rightarrow> nat" where
  "pairCodePoint c k = (unat c - 0xD800) * 0x400 + (unat k - 0xDC00) + 0x10000"

text \<open>The UTF-8 octets of a code point.\<close>

definition UTF8 :: "nat \<Rightarrow> nat list" where
  "UTF8 v =
     (if v < 0x80 then [v]
      else if v < 0x800 then [0xC0 + v div 0x40, 0x80 + v mod 0x40]
      else if v < 0x10000 then
        [0xE0 + v div 0x1000, 0x80 + (v div 0x40) mod 0x40, 0x80 + v mod 0x40]
      else
        [0xF0 + v div 0x40000, 0x80 + (v div 0x1000) mod 0x40,
         0x80 + (v div 0x40) mod 0x40, 0x80 + v mod 0x40])"

definition hexDigit :: "nat \<Rightarrow> jschar" where
  "hexDigit d = (if d < 10 then of_nat (48 + d) else of_nat (55 + d))"

definition escapeOctet :: "nat \<Rightarrow> jsstring" where
  "escapeOctet b = [0x25, hexDigit (b div 16), hexDigit (b mod 16)]"

definition escapeOctets :: "nat list \<Rightarrow> jsstring" where
  "escapeOctets bs = concat (map escapeOctet bs)"

definition andThen :: "jsstring \<Rightarrow> error + jsstring \<Rightarrow> error + jsstring" where
  "andThen pre r = (case r of Inl e \<Rightarrow> Inl e | Inr s \<Rightarrow> Inr (pre @ s))"

fun encodeURI :: "jsstring \<Rightarrow> error + jsstring" where
  "encodeURI [] = Inr []"
| "encodeURI (c # cs) =
     (if unescapedURISet c then andThen [c] (encodeURI cs)
      else if isLowSurrogate c then Inl URIError
      else if \<not> isHighSurrogate c then andThen (escapeOctets (UTF8 (unat c))) (encodeURI cs)
      else (case cs of
              [] \<Rightarrow> Inl URIError
            | k # ks \<Rightarrow>
                if \<not> isLowSurrogate k then Inl URIError
                else andThen (escapeOctets (UTF8 (pairCodePoint c k))) (encodeURI ks)))"

section \<open>The \<open>path\<close> module (POSIX)\<close>

text \<open>
  \<open>path.resolve\<close>, \<open>path.relative\<close> and \<open>path.dirname\<close> of Node, on POSIX paths. A resolved
  path is the list of its components below the root; \<open>cwd\<close> is \<open>process.cwd()\<close>.
\<close>

definition slash :: "jschar" where
  "slash = 0x2F"

fun splitOn :: "jschar \<Rightarrow> jsstring \<Rightarrow> jsstring list" where
  "splitOn sep [] = [[]]"
| "splitOn sep (c # cs) =
     (if c = sep then [] # splitOn sep cs
      else (case splitOn sep cs of [] \<Rightarrow> [[c]] | p # ps \<Rightarrow> (c # p) # ps))"

fun normalizeParts :: "jsstring list \<Rightarrow> jsstring list \<Rightarrow> jsstring list" where
  "normalizeParts acc [] = acc"
| "normalizeParts acc (p # ps) =
     (if p = [] \<or> p = ascii ''.'' then normalizeParts acc ps
      else if p = ascii ''..'' then normalizeParts (butlast acc) ps
      else normalizeParts (acc @ [p]) ps)"

definition isAbsolute :: "jsstring \<Rightarrow> bool" where
  "isAbsolute p \<longleftrightarrow> (case p of [] \<Rightarrow> False | c # _ \<Rightarrow> c = slash)"

definition resolve :: "jsstring \<Rightarrow> jsstring \<Rightarrow> jsstring list" where
  "resolve cwd p =
     normalizeParts [] (splitOn slash (if isAbsolute p then p else cwd @ [slash] @ p))"

fun join :: "jsstring \<Rightarrow> jsstring list \<Rightarrow> jsstring" where
  "join sep [] = []"
| "join sep [p] = p"
| "join sep (p # q # ps) = p @ sep @ join sep (q # ps)"

fun samePartsLength :: "jsstring list \<Rightarrow> jsstring list \<Rightarrow> nat" where
  "samePartsLength (a # as) (b # bs) = (if a = b then Suc (samePartsLength as bs) else 0)"
| "samePartsLength _ _ = 0"

definition relative :: "jsstring \<Rightarrow> jsstring \<Rightarrow> jsstring \<Rightarrow> jsstring" where
  "relative cwd from to =
     (let fromParts = resolve cwd from;
          toParts = resolve cwd to;
          n = samePartsLength fromParts toParts
      in join [slash] (replicate (length fromParts - n) (ascii ''..'') @ drop n toParts))"

definition dirname :: "jsstring \<Rightarrow> jsstring" where
  "dirname p =
     (if p = [] then ascii ''.''
      else
        let hasRoot = (hd p = slash);
            rest = dropWhile (\<lambda>c. c \<noteq> slash) (dropWhile (\<lambda>c. c = slash) (rev (tl p)));
            endIndex = length rest
        in if rest = [] then (if hasRoot then ascii ''/'' else ascii ''.'')
           else if hasRoot \<and> endIndex = 1 then ascii ''//''
           else take endIndex p)"

section \<open>Tests, the failed-test index and the application object\<close>

text \<open>
  A test result as \<open>lib/app.js\<close> reads it: \<open>suite.path\<close>, \<open>state.name\<close>, \<open>browserId\<close>,
  \<open>referencePath\<close> and \<open>currentPath\<close>.
\<close>

record test =
  suitePath :: jsstring
  stateName :: jsstring
  browserId :: jsstring
  referencePath :: jsstring
  currentPath :: jsstring

type_synonym testKey = "jsstring \<times> jsstring \<times> jsstring"

definition keyOf :: "test \<Rightarrow> testKey" where
  "keyOf t = (suitePath t, stateName t, browserId t)"

type_synonym testsIndex = "testKey \<rightharpoonup> test"

text \<open>
  Modelled from the spec: the class \<open>Index\<close> of \<open>lib/common/tests-index.js\<close>, which
  \<open>lib/app.js\<close> requires and which is not among the sources. The spec (4.3): \<open>add(test)\<close>
  inserts or overwrites the entry keyed by \<open>(suite.path, state.name, browserId)\<close>;
  \<open>find(testDescriptor)\<close> looks up by the same composite key and returns the stored
  result or a not-found signal. The index is created empty.
\<close>

definition Index_new :: "testsIndex" where
  "Index_new = Map.empty"

definition Index_add :: "testsIndex \<Rightarrow> test \<Rightarrow> testsIndex" where
  "Index_add idx t = idx(keyOf t \<mapsto> t)"

definition Index_find :: "testsIndex \<Rightarrow> test \<Rightarrow> test option" where
  "Index_find idx d = idx (keyOf d)"

text \<open>
  The fields of \<open>App\<close> that the methods below read: \<open>_options.browser\<close> (absent when no
  browser was selected on invocation), the two temporary directories, the failed-test
  index and the map from browser id to reference directory.
\<close>

record app =
  optBrowser :: "jsstring list option"
  diffDir :: jsstring
  currentDir :: jsstring
  failedTests :: testsIndex
  referenceDirs :: "jsstring \<rightharpoonup> jsstring"

record suite =
  suiteName :: jsstring
  browsers :: "jsstring list"

section \<open>Browser selection\<close>

text \<open>
  \<open>_.intersection(a, b)\<close> of lodash: the values of \<open>a\<close> that are in \<open>b\<close>, in the order of
  \<open>a\<close>, each once. \<open>_.difference(a, b)\<close>: the values of \<open>a\<close> that are not in \<open>b\<close>; an
  \<open>a\<close> that is not an array gives the empty array.
\<close>

fun baseIntersection :: "'a list \<Rightarrow> 'a list \<Rightarrow> 'a list \<Rightarrow> 'a list" where
  "baseIntersection result [] others = result"
| "baseIntersection result (x # xs) others =
     (if x \<notin> set result \<and> x \<in> set others
      then baseIntersection (result @ [x]) xs others
      else baseIntersection result xs others)"

definition intersection :: "'a list \<Rightarrow> 'a list \<Rightarrow> 'a list" where
  "intersection a b = baseIntersection [] a b"

definition difference :: "'a list option \<Rightarrow> 'a list \<Rightarrow> 'a list" where
  "difference a b = (case a of None \<Rightarrow> [] | Some xs \<Rightarrow> filter (\<lambda>x. x \<notin> set b) xs)"

definition filterBrowsers :: "jsstring list \<Rightarrow> jsstring list \<Rightarrow> jsstring list" where
  "filterBrowsers browsersFromConfig browsersFromCli =
     intersection browsersFromConfig browsersFromCli"

text \<open>
  \<open>checkUnknownBrowsers\<close> returns the messages it passes to \<open>console.warn\<close>. The
  colouring function \<open>chalk.yellow\<close> is a parameter.
\<close>

definition checkUnknownBrowsers ::
  "(jsstring \<Rightarrow> jsstring) \<Rightarrow> jsstring list \<Rightarrow> jsstring list option \<Rightarrow> jsstring list" where
  "checkUnknownBrowsers yellow browsersFromConfig browsersFromCli =
     (let unknownBrowsers = difference browsersFromCli browsersFromConfig
      in if unknownBrowsers \<noteq> [] then
           [yellow (ascii ''WARNING:'') @ ascii '' Unknown browser ids: ''
              @ join (ascii '', '') unknownBrowsers
              @ ascii ''. Use one of the browser ids specified in the config file: ''
              @ join (ascii '', '') browsersFromConfig]
         else [])"

text \<open>
  The constructor: \<open>tmpDiff\<close> and \<open>tmpCurr\<close> are what \<open>temp.path\<close> returns, \<open>browserIds\<close>
  is \<open>gemini.browserIds\<close> and \<open>screenshotsDir\<close> is \<open>config.forBrowser(id).screenshotsDir\<close>.
  The result is the new object and the warnings printed.
\<close>

definition App_new ::
  "(jsstring \<Rightarrow> jsstring) \<Rightarrow> jsstring list option \<Rightarrow> jsstring \<Rightarrow> jsstring \<Rightarrow> jsstring list
     \<Rightarrow> (jsstring \<Rightarrow> jsstring) \<Rightarrow> app \<times> jsstring list" where
  "App_new yellow browser tmpDiff tmpCurr browserIds screenshotsDir =
     (\<lparr> optBrowser = browser,
        diffDir = tmpDiff,
        currentDir = tmpCurr,
        failedTests = Index_new,
        referenceDirs = (\<lambda>b. if b \<in> set browserIds then Some (screenshotsDir b) else None) \<rparr>,
      checkUnknownBrowsers yellow browserIds browser)"

text \<open>
  \<open>_readTests\<close>: \<open>loaded\<close> is the outcome of \<open>gemini.readTests\<close> followed by
  \<open>collection.topLevelSuites()\<close>; the result is the suites as \<open>_readTests\<close> leaves them.
\<close>

definition readTests :: "app \<Rightarrow> error + suite list \<Rightarrow> error + suite list" where
  "readTests a loaded =
     (case loaded of
        Inl e \<Rightarrow> Inl e
      | Inr suites \<Rightarrow>
          (case optBrowser a of
             None \<Rightarrow> Inr suites
           | Some cli \<Rightarrow>
               Inr (map (\<lambda>s. s\<lparr>browsers := filterBrowsers (browsers s) cli\<rparr>) suites)))"

definition addFailedTest :: "app \<Rightarrow> test \<Rightarrow> app" where
  "addFailedTest a t = a\<lparr>failedTests := Index_add (failedTests a) t\<rparr>"

section \<open>Mapping paths to URLs\<close>

definition refPrefix :: "jsstring" where
  "refPrefix = ascii ''/ref''"

definition currentPrefix :: "jsstring" where
  "currentPrefix = ascii ''/curr''"

definition diffPrefix :: "jsstring" where
  "diffPrefix = ascii ''/diff''"

text \<open>\<open>_pathToURL\<close>.\<close>

definition pathToURL :: "jsstring \<Rightarrow> jsstring \<Rightarrow> jsstring \<Rightarrow> jsstring \<Rightarrow> error + jsstring" where
  "pathToURL cwd rootDir fullPath pre =
     (let relPath = relative cwd rootDir fullPath
      in andThen (pre @ ascii ''/'') (encodeURI relPath))"

text \<open>
  \<open>_appendTimestampToURL\<close>: \<open>now\<close> is \<open>new Date().valueOf()\<close>, the milliseconds since the
  epoch (the clock is taken not to be set before 1970).
\<close>

definition appendTimestampToURL :: "nat \<Rightarrow> jsstring \<Rightarrow> jsstring" where
  "appendTimestampToURL now url = url @ ascii ''?t='' @ decimal now"

definition refPathToURL ::
  "jsstring \<Rightarrow> nat \<Rightarrow> app \<Rightarrow> jsstring \<Rightarrow> jsstring \<Rightarrow> error + jsstring" where
  "refPathToURL cwd now a fullPath b =
     (case referenceDirs a b of
        None \<Rightarrow> Inl TypeError
      | Some rootDir \<Rightarrow>
          map_sum id (appendTimestampToURL now)
            (pathToURL cwd rootDir fullPath (refPrefix @ ascii ''/'' @ b)))"

definition currentPathToURL :: "jsstring \<Rightarrow> nat \<Rightarrow> app \<Rightarrow> jsstring \<Rightarrow> error + jsstring" where
  "currentPathToURL cwd now a fullPath =
     map_sum id (appendTimestampToURL now) (pathToURL cwd (currentDir a) fullPath currentPrefix)"

definition diffPathToURL :: "jsstring \<Rightarrow> app \<Rightarrow> jsstring \<Rightarrow> error + jsstring" where
  "diffPathToURL cwd a fullPath = pathToURL cwd (diffDir a) fullPath diffPrefix"

section \<open>The world: file system, subprocess, console\<close>

text \<open>
  The file system maps a resolved path (its components below the root) to a file with its
  size in bytes or to a directory. The world also records, in order, every call that
  \<open>lib/app.js\<close> makes to a collaborator with an effect or a result from outside: the
  \<open>q-io/fs\<close> calls, \<open>execFile\<close>, \<open>compareSize\<close> and the console.
\<close>

datatype node = File nat | Dir

type_synonym filesystem = "jsstring list \<rightharpoonup> node"

datatype effect =
    Exists jsstring
  | RemoveTree jsstring
  | MakeDirectory jsstring
  | MakeTree jsstring
  | IsFile jsstring
  | Remove jsstring
  | ExecFile jsstring "jsstring list"
  | CompareSize jsstring jsstring
  | ConsoleLog jsstring

record world =
  files :: filesystem
  trace :: "effect list"

text \<open>
  What the program is run in: the working directory, the clock, the path of the optipng
  binary (\<open>require('optipng-bin')\<close>), the behaviour of a subprocess (any function of the
  program, its arguments and the file system; \<open>None\<close> is exit status 0) and the size that
  \<open>stat\<close> reports for a directory.
\<close>

record env =
  cwd :: jsstring
  now :: nat
  optipng :: jsstring
  subprocess :: "jsstring \<Rightarrow> jsstring list \<Rightarrow> filesystem \<Rightarrow> error option \<times> filesystem"
  dirSize :: nat

text \<open>
  A promise is a computation on the world that is fulfilled with a value or rejected with
  an error. \<open>thenP\<close> is \<open>.then\<close> with a fulfilment handler only; \<open>all2\<close> is \<open>q.all\<close> on an
  array of two promises: both run (here in array order), and the result is rejected when
  one of them is.
\<close>

type_synonym 'a promise = "world \<Rightarrow> (error + 'a) \<times> world"

definition resolved :: "'a \<Rightarrow> 'a promise" where
  "resolved x w = (Inr x, w)"

definition rejected :: "error \<Rightarrow> 'a promise" where
  "rejected e w = (Inl e, w)"

definition thenP :: "'a promise \<Rightarrow> ('a \<Rightarrow> 'b promise) \<Rightarrow> 'b promise" where
  "thenP p f w = (case p w of (Inl e, w') \<Rightarrow> (Inl e, w') | (Inr x, w') \<Rightarrow> f x w')"

definition all2 :: "'a promise \<Rightarrow> 'b promise \<Rightarrow> ('a \<times> 'b) promise" where
  "all2 p q w =
     (case p w of (r1, w1) \<Rightarrow>
        (case q w1 of (r2, w2) \<Rightarrow>
           ((case r1 of
               Inl e \<Rightarrow> Inl e
             | Inr x \<Rightarrow> (case r2 of Inl e \<Rightarrow> Inl e | Inr y \<Rightarrow> Inr (x, y))), w2)))"

definition fromSum :: "error + 'a \<Rightarrow> 'a promise" where
  "fromSum r w = (r, w)"

definition emit :: "effect \<Rightarrow> world \<Rightarrow> world" where
  "emit ev w = w\<lparr>trace := trace w @ [ev]\<rparr>"

subsection \<open>\<open>q-io/fs\<close>\<close>

definition fs_exists :: "env \<Rightarrow> jsstring \<Rightarrow> bool promise" where
  "fs_exists e p w = (Inr (files w (resolve (cwd e) p) \<noteq> None), emit (Exists p) w)"

definition fs_isFile :: "env \<Rightarrow> jsstring \<Rightarrow> bool promise" where
  "fs_isFile e p w =
     (Inr (case files w (resolve (cwd e) p) of Some (File _) \<Rightarrow> True | _ \<Rightarrow> False),
      emit (IsFile p) w)"

definition fs_remove :: "env \<Rightarrow> jsstring \<Rightarrow> unit promise" where
  "fs_remove e p w =
     (let rp = resolve (cwd e) p; w' = emit (Remove p) w
      in case files w rp of
           None \<Rightarrow> (Inl ENOENT, w')
         | Some Dir \<Rightarrow> (Inl EISDIR, w')
         | Some (File _) \<Rightarrow> (Inr (), w'\<lparr>files := (files w)(rp := None)\<rparr>))"

definition fs_removeTree :: "env \<Rightarrow> jsstring \<Rightarrow> unit promise" where
  "fs_removeTree e p w =
     (let rp = resolve (cwd e) p; w' = emit (RemoveTree p) w
      in case files w rp of
           None \<Rightarrow> (Inl ENOENT, w')
         | Some _ \<Rightarrow> (Inr (), w'\<lparr>files := (\<lambda>q. if prefix rp q then None else files w q)\<rparr>))"

definition mkdir :: "filesystem \<Rightarrow> jsstring list \<Rightarrow> error + filesystem" where
  "mkdir fs rp =
     (if rp = [] then Inl EEXIST
      else case fs (butlast rp) of
             None \<Rightarrow> Inl ENOENT
           | Some (File _) \<Rightarrow> Inl ENOTDIR
           | Some Dir \<Rightarrow> (if fs rp \<noteq> None then Inl EEXIST else Inr (fs(rp \<mapsto> Dir))))"

definition fs_makeDirectory :: "env \<Rightarrow> jsstring \<Rightarrow> unit promise" where
  "fs_makeDirectory e p w =
     (let w' = emit (MakeDirectory p) w
      in case mkdir (files w) (resolve (cwd e) p) of
           Inl err \<Rightarrow> (Inl err, w')
         | Inr fs' \<Rightarrow> (Inr (), w'\<lparr>files := fs'\<rparr>))"

text \<open>
  \<open>makeTree\<close> makes the directory and every missing ancestor, from the root down, and
  ignores \<open>EEXIST\<close> and \<open>EISDIR\<close> on the way; directories made before a failure stay.
\<close>

fun mkdirs :: "filesystem \<Rightarrow> jsstring list list \<Rightarrow> error option \<times> filesystem" where
  "mkdirs fs [] = (None, fs)"
| "mkdirs fs (d # ds) =
     (case mkdir fs d of
        Inl err \<Rightarrow> (if err = EEXIST \<or> err = EISDIR then mkdirs fs ds else (Some err, fs))
      | Inr fs' \<Rightarrow> mkdirs fs' ds)"

definition fs_makeTree :: "env \<Rightarrow> jsstring \<Rightarrow> unit promise" where
  "fs_makeTree e p w =
     (let w' = emit (MakeTree p) w
      in case mkdirs (files w) (tl (prefixes (resolve (cwd e) p))) of
           (Some err, fs') \<Rightarrow> (Inl err, w'\<lparr>files := fs'\<rparr>)
         | (None, fs') \<Rightarrow> (Inr (), w'\<lparr>files := fs'\<rparr>))"

subsection \<open>\<open>execFile\<close>, \<open>compareSize\<close>, \<open>console.log\<close>\<close>

definition nfcall_execFile :: "env \<Rightarrow> jsstring \<Rightarrow> jsstring list \<Rightarrow> unit promise" where
  "nfcall_execFile e file args w =
     (let w' = emit (ExecFile file args) w
      in case subprocess e file args (files w) of
           (Some err, fs') \<Rightarrow> (Inl err, w'\<lparr>files := fs'\<rparr>)
         | (None, fs') \<Rightarrow> (Inr (), w'\<lparr>files := fs'\<rparr>))"

definition statSize :: "env \<Rightarrow> filesystem \<Rightarrow> jsstring \<Rightarrow> error + int" where
  "statSize e fs p =
     (case fs (resolve (cwd e) p) of
        None \<Rightarrow> Inl ENOENT
      | Some (File n) \<Rightarrow> Inr (int n)
      | Some Dir \<Rightarrow> Inr (int (dirSize e)))"

text \<open>
  Modelled from the spec: the package \<open>compare-size\<close>, which \<open>lib/app.js\<close> requires and
  which is not among the sources. The spec (6) has a size inspector
  \<open>compare(pathA, pathB) -> {sizeA, sizeB, difference}\<close>. \<open>compareSize(a, b)\<close> is fulfilled
  with an object that holds the size of \<open>a\<close> under the key \<open>a\<close>, the size of \<open>b\<close> under the
  key \<open>b\<close> and, under the key \<open>difference\<close>, the difference of the two sizes without its
  sign: the package takes the absolute value, so the entry is never negative, whichever
  file is the larger. (The stub \<open>mkCompressionRes\<close> of \<open>test/app.js\<close> has the same keys but
  is not the package.) It is rejected when one of the two files does not exist.
\<close>

definition compareSize :: "env \<Rightarrow> jsstring \<Rightarrow> jsstring \<Rightarrow> (jsstring \<rightharpoonup> int) promise" where
  "compareSize e a b w =
     (let w' = emit (CompareSize a b) w
      in case statSize e (files w) a of
           Inl err \<Rightarrow> (Inl err, w')
         | Inr sa \<Rightarrow>
             (case statSize e (files w) b of
                Inl err \<Rightarrow> (Inl err, w')
              | Inr sb \<Rightarrow>
                  (Inr ((Map.empty(a \<mapsto> sa))(b \<mapsto> sb, ascii ''difference'' \<mapsto> abs (sb - sa))),
                   w')))"

definition console_log :: "jsstring \<Rightarrow> unit promise" where
  "console_log msg w = (Inr (), emit (ConsoleLog msg) w)"

text \<open>
  \<open>Math.round(p / q)\<close> for integers \<open>p\<close> and \<open>q\<close> for which the quotient is computed
  exactly (below \<open>2^52\<close>): the nearest integer, a half rounded up; a division by zero
  gives \<open>NaN\<close> or an infinity.
\<close>

definition mathRoundDiv :: "int \<Rightarrow> int \<Rightarrow> jsnum" where
  "mathRoundDiv p q =
     (if q = 0 then (if p = 0 then NaN else if 0 < p then PosInfinity else NegInfinity)
      else Num ((2 * p + q) div (2 * q)))"

section \<open>The methods of \<open>App\<close> with effects\<close>

definition removeTreeIfExists :: "env \<Rightarrow> jsstring \<Rightarrow> unit promise" where
  "removeTreeIfExists e p =
     thenP (fs_exists e p) (\<lambda>exists. if exists then fs_removeTree e p else resolved ())"

text \<open>\<open>_recreateTmpDirs\<close>.\<close>

definition recreateTmpDirs :: "env \<Rightarrow> app \<Rightarrow> (unit \<times> unit) promise" where
  "recreateTmpDirs e a =
     thenP (all2 (removeTreeIfExists e (currentDir a)) (removeTreeIfExists e (diffDir a)))
       (\<lambda>_. all2 (fs_makeDirectory e (currentDir a)) (fs_makeDirectory e (diffDir a)))"

definition initialize :: "env \<Rightarrow> app \<Rightarrow> error + suite list \<Rightarrow> (suite list) promise" where
  "initialize e a loaded = thenP (recreateTmpDirs e a) (\<lambda>_. fromSum (readTests a loaded))"

text \<open>\<open>_deleteRefImg\<close>, \<open>_compressAndCopyRefImg\<close>, \<open>_calcCompression\<close>.\<close>

definition deleteRefImg :: "env \<Rightarrow> jsstring \<Rightarrow> unit promise" where
  "deleteRefImg e refPathImg =
     thenP (fs_isFile e refPathImg)
       (\<lambda>refExists. if refExists then fs_remove e refPathImg else resolved ())"

definition compressAndCopyRefImg :: "env \<Rightarrow> jsstring \<Rightarrow> jsstring \<Rightarrow> unit promise" where
  "compressAndCopyRefImg e refPathImg currPathImg =
     nfcall_execFile e (optipng e) [ascii ''-out'', refPathImg, currPathImg]"

definition roundRate :: "(jsstring \<rightharpoonup> int) \<Rightarrow> jsstring \<Rightarrow> jsnum" where
  "roundRate res currPathImg =
     (case res (ascii ''difference'') of
        None \<Rightarrow> NaN
      | Some d \<Rightarrow> (case res currPathImg of None \<Rightarrow> NaN | Some s \<Rightarrow> mathRoundDiv (d * 100) s))"

definition calcCompression :: "env \<Rightarrow> jsstring \<Rightarrow> jsstring \<Rightarrow> jsnum promise" where
  "calcCompression e refPathImg currPathImg =
     thenP (compareSize e refPathImg currPathImg) (\<lambda>res. resolved (roundRate res currPathImg))"

definition updateMessage :: "jsstring \<Rightarrow> jsnum \<Rightarrow> jsstring" where
  "updateMessage refPath compressionRate =
     ascii ''Reference image '' @ refPath @ ascii '' has been updated ''
       @ ascii ''(compressed on: '' @ numberToString compressionRate @ ascii ''%).''"

definition updateReferenceImage :: "env \<Rightarrow> app \<Rightarrow> test \<Rightarrow> jsstring promise" where
  "updateReferenceImage e a testData =
     (case Index_find (failedTests a) testData of
        None \<Rightarrow> rejected (Error (ascii ''No such test failed''))
      | Some t \<Rightarrow>
          thenP (fs_makeTree e (dirname (referencePath t))) (\<lambda>_.
          thenP (deleteRefImg e (referencePath t)) (\<lambda>_.
          thenP (compressAndCopyRefImg e (referencePath t) (currentPath t)) (\<lambda>_.
          thenP (calcCompression e (referencePath t) (currentPath t)) (\<lambda>compressionRate.
          thenP (console_log (updateMessage (referencePath t) compressionRate)) (\<lambda>_.
          fromSum (refPathToURL (cwd e) (now e) a (referencePath t) (browserId t))))))))"

section \<open>Notions of the specification\<close>

text \<open>
  The specification speaks of a URL that matches \<open>\?t=\d+$\<close>, of the path portion of a
  URL and of percent-decoding. These are defined here from its words, to be compared with
  what the program computes.

  \<open>matchesTimestamp u\<close>: \<open>u\<close> ends with \<open>?t=\<close> and one or more decimal digits.
\<close>

definition matchesTimestamp :: "jsstring \<Rightarrow> bool" where
  "matchesTimestamp u \<longleftrightarrow>
     takeWhile decimalDigit (rev u) \<noteq> [] \<and>
     prefix (rev (ascii ''?t='')) (dropWhile decimalDigit (rev u))"

text \<open>The path portion of a URL reference ends before the first \<open>?\<close> or \<open>#\<close>.\<close>

definition urlPath :: "jsstring \<Rightarrow> jsstring" where
  "urlPath u = takeWhile (\<lambda>c. c \<noteq> 0x3F \<and> c \<noteq> 0x23) u"

text \<open>Stripping the namespace prefix and the \<open>/\<close> after it.\<close>

definition stripNamespace :: "jsstring \<Rightarrow> jsstring \<Rightarrow> jsstring" where
  "stripNamespace pre u = drop (length pre + 1) u"

text \<open>
  Percent-decoding: every \<open>%XY\<close> is the octet with the hexadecimal digits \<open>XY\<close>, every
  other (ASCII) character is its own octet; the octets are then read as UTF-8 and give the
  decoded string in UTF-16 code units.
\<close>

definition hexValue :: "jschar \<Rightarrow> nat option" where
  "hexValue c =
     (if 0x30 \<le> c \<and> c \<le> 0x39 then Some (unat c - 0x30)
      else if 0x41 \<le> c \<and> c \<le> 0x46 then Some (unat c - 0x37)
      else if 0x61 \<le> c \<and> c \<le> 0x66 then Some (unat c - 0x57)
      else None)"

fun percentDecode :: "jsstring \<Rightarrow> nat list option" where
  "percentDecode [] = Some []"
| "percentDecode (c # cs) =
     (if c = 0x25 then
        (case cs of
           h # l # rest \<Rightarrow>
             (case hexValue h of
                None \<Rightarrow> None
              | Some x \<Rightarrow>
                  (case hexValue l of
                     None \<Rightarrow> None
                   | Some y \<Rightarrow> map_option ((#) (16 * x + y)) (percentDecode rest)))
         | _ \<Rightarrow> None)
      else if c < 0x80 then map_option ((#) (unat c)) (percentDecode cs)
      else None)"

definition codeUnits :: "nat \<Rightarrow> jsstring" where
  "codeUnits v =
     (if v < 0x10000 then [of_nat v]
      else [of_nat (0xD800 + (v - 0x10000) div 0x400),
            of_nat (0xDC00 + (v - 0x10000) mod 0x400)])"

definition continuation :: "nat \<Rightarrow> bool" where
  "continuation b \<longleftrightarrow> 0x80 \<le> b \<and> b < 0xC0"

fun utf8Decode :: "nat list \<Rightarrow> jsstring option" where
  "utf8Decode [] = Some []"
| "utf8Decode (b # bs) =
     (if b < 0x80 then map_option ((@) (codeUnits b)) (utf8Decode bs)
      else if 0xC0 \<le> b \<and> b < 0xE0 then
        (case bs of
           b1 # r \<Rightarrow>
             if continuation b1
             then map_option ((@) (codeUnits ((b - 0xC0) * 0x40 + (b1 - 0x80)))) (utf8Decode r)
             else None
         | _ \<Rightarrow> None)
      else if 0xE0 \<le> b \<and> b < 0xF0 then
        (case bs of
           b1 # b2 # r \<Rightarrow>
             if continuation b1 \<and> continuation b2
             then map_option
                    ((@) (codeUnits ((b - 0xE0) * 0x1000 + (b1 - 0x80) * 0x40 + (b2 - 0x80))))
                    (utf8Decode r)
             else None
         | _ \<Rightarrow> None)
      else if 0xF0 \<le> b \<and> b < 0xF8 then
        (case bs of
           b1 # b2 # b3 # r \<Rightarrow>
             if continuation b1 \<and> continuation b2 \<and> continuation b3
             then map_option
                    ((@) (codeUnits ((b - 0xF0) * 0x40000 + (b1 - 0x80) * 0x1000
                                      + (b2 - 0x80) * 0x40 + (b3 - 0x80))))
                    (utf8Decode r)
             else None
         | _ \<Rightarrow> None)
      else None)"

definition percentDecodeString :: "jsstring \<Rightarrow> jsstring option" where
  "percentDecodeString s = (case percentDecode s of None \<Rightarrow> None | Some bs \<Rightarrow> utf8Decode bs)"

section \<open>Auxiliary notions\<close>

text \<open>
  A file system is well formed when the parent of every entry is a directory;
  \<open>removeBelow c fs\<close> is \<open>fs\<close> without \<open>c\<close> and everything below it; \<open>digitsValue\<close> reads
  a string of decimal digits back as a number.
\<close>

definition wellFormed :: "filesystem \<Rightarrow> bool" where
  "wellFormed fs \<longleftrightarrow> (\<forall>p. fs p \<noteq> None \<longrightarrow> p \<noteq> [] \<longrightarrow> fs (butlast p) = Some Dir)"

definition removeBelow :: "jsstring list \<Rightarrow> filesystem \<Rightarrow> filesystem" where
  "removeBelow c fs = (\<lambda>q. if prefix c q then None else fs q)"

definition digitsValue :: "jsstring \<Rightarrow> nat" where
  "digitsValue ds = foldl (\<lambda>acc c. 10 * acc + (unat c - 48)) 0 ds"

section \<open>Example inputs\<close>

text \<open>
  A failing test with its reference and current images, a descriptor with the same suite
  path, state name and browser id but no paths (what a viewer sends back), an application
  object that has recorded the test, and a file system in which both images exist.
\<close>

definition exampleTest :: test where
  "exampleTest =
     \<lparr> suitePath = ascii ''suite'', stateName = ascii ''plain'', browserId = ascii ''chrome'',
       referencePath = ascii ''/shots/suite/plain/chrome.png'',
       currentPath = ascii ''/tmp/curr/img.png'' \<rparr>"

definition exampleDescriptor :: test where
  "exampleDescriptor =
     \<lparr> suitePath = ascii ''suite'', stateName = ascii ''plain'', browserId = ascii ''chrome'',
       referencePath = [], currentPath = [] \<rparr>"

definition exampleApp :: app where
  "exampleApp =
     \<lparr> optBrowser = Some [ascii ''firefox'', ascii ''ie''],
       diffDir = ascii ''/tmp/diff'',
       currentDir = ascii ''/tmp/curr'',
       failedTests = Index_add Index_new exampleTest,
       referenceDirs = [ascii ''chrome'' \<mapsto> ascii ''/shots''] \<rparr>"

definition exampleFiles :: filesystem where
  "exampleFiles =
     [[] \<mapsto> Dir,
      [ascii ''tmp''] \<mapsto> Dir,
      [ascii ''tmp'', ascii ''curr''] \<mapsto> Dir,
      [ascii ''tmp'', ascii ''curr'', ascii ''img.png''] \<mapsto> File 750,
      [ascii ''shots''] \<mapsto> Dir,
      [ascii ''shots'', ascii ''suite''] \<mapsto> Dir,
      [ascii ''shots'', ascii ''suite'', ascii ''plain''] \<mapsto> Dir,
      [ascii ''shots'', ascii ''suite'', ascii ''plain'', ascii ''chrome.png''] \<mapsto> File 900]"

definition exampleWorld :: world where
  "exampleWorld = \<lparr> files = exampleFiles, trace = [] \<rparr>"

text \<open>
  An environment whose subprocess writes, at its second argument, a file 4/3 the size of
  the file at its third argument.
\<close>

definition exampleEnv :: env where
  "exampleEnv =
     \<lparr> cwd = ascii ''/work'',
       now = 1478000000000,
       optipng = ascii ''optipng'',
       subprocess = (\<lambda>file args fs.
          case args of
            [opt, out, inp] \<Rightarrow>
              (case fs (resolve (ascii ''/work'') inp) of
                 Some (File n) \<Rightarrow> (None, fs(resolve (ascii ''/work'') out \<mapsto> File (n * 4 div 3)))
               | _ \<Rightarrow> (Some (ExecError 2), fs))
          | _ \<Rightarrow> (Some (ExecError 2), fs)),
       dirSize = 4096 \<rparr>"

text \<open>A file system in which \<open>/shots\<close> is a file, so that no directory can be made below it.\<close>

definition brokenFiles :: filesystem where
  "brokenFiles = exampleFiles([ascii ''shots''] \<mapsto> File 1)"

text \<open>
  A file system with a current capture of 30000 bytes, and an environment whose subprocess
  writes, at its second argument, a file half the size of the file at its third argument.
\<close>

definition largeFiles :: filesystem where
  "largeFiles = exampleFiles([ascii ''tmp'', ascii ''curr'', ascii ''img.png''] \<mapsto> File 30000)"

definition halvingEnv :: env where
  "halvingEnv =
     \<lparr> cwd = ascii ''/work'',
       now = 1478000000000,
       optipng = ascii ''optipng'',
       subprocess = (\<lambda>file args fs.
          case args of
            [opt, out, inp] \<Rightarrow>
              (case fs (resolve (ascii ''/work'') inp) of
                 Some (File n) \<Rightarrow> (None, fs(resolve (ascii ''/work'') out \<mapsto> File (n div 2)))
               | _ \<Rightarrow> (Some (ExecError 2), fs))
          | _ \<Rightarrow> (Some (ExecError 2), fs)),
       dirSize = 4096 \<rparr>"

text \<open>A file system with an empty current capture.\<close>

definition emptyCaptureFiles :: filesystem where
  "emptyCaptureFiles = exampleFiles([ascii ''tmp'', ascii ''curr'', ascii ''img.png''] \<mapsto> File 0)"

text \<open>A file system with a file named \<open>difference\<close> in the working directory.\<close>

definition collidingFiles :: filesystem where
  "collidingFiles =
     exampleFiles([ascii ''work''] \<mapsto> Dir, [ascii ''work'', ascii ''difference''] \<mapsto> File 750)"

text \<open>A path with a space and with the non-ASCII characters U+00E9 and U+20AC.\<close>

definition examplePath :: jsstring where
  "examplePath = ascii ''/shots/my suite/'' @ [0xE9, 0x20AC] @ ascii ''.png''"

section \<open>Lemmas on code units and decimal digits\<close>

lemma unat_bound: "unat (c::16 word) < 65536"
  using unsigned_less [of c, where 'a = nat] by simp

lemma unat_small: "n < 65536 \<Longrightarrow> unat (of_nat n :: 16 word) = n"
  by (simp add: unat_of_nat)

lemma digitChar: "d < 10 \<Longrightarrow> decimalDigit (of_nat (48 + d))"
  by (simp add: decimalDigit_def word_le_nat_alt unat_small del: of_nat_add)

lemma decimal_digits: "\<forall>c \<in> set (decimal n). decimalDigit c"
  by (induction n rule: decimal.induct) (subst decimal.simps, simp add: digitChar del: of_nat_add)

lemma decimal_nonempty: "decimal n \<noteq> []"
  by (subst decimal.simps) simp

lemma digitsValue_decimal: "digitsValue (decimal n) = n"
proof (induction n rule: decimal.induct)
  case (1 n)
  show ?case
  proof (cases "n < 10")
    case True
    then show ?thesis
      by (subst decimal.simps) (simp add: digitsValue_def unat_small del: of_nat_add)
  next
    case False
    have m: "n mod 10 < 10" by simp
    from False 1 have "digitsValue (decimal (n div 10)) = n div 10" by simp
    with False m show ?thesis
      by (subst decimal.simps) (simp add: digitsValue_def unat_small del: of_nat_add)
  qed
qed

lemma decimal_inj: "decimal m = decimal n \<Longrightarrow> m = n"
  by (metis digitsValue_decimal)

lemma not_digit_eq: "\<not> decimalDigit 0x3D"
  by (simp add: decimalDigit_def)

lemma matches_appended:
  "matchesTimestamp (body @ ascii ''?t='' @ decimal n)"
proof -
  have r: "rev (body @ ascii ''?t='' @ decimal n) = rev (decimal n) @ 0x3D # (ascii ''t?'' @ rev body)"
    by (simp add: ascii_def)
  have all: "\<forall>c \<in> set (rev (decimal n)). decimalDigit c" using decimal_digits by simp
  have t: "takeWhile decimalDigit (rev (decimal n) @ 0x3D # (ascii ''t?'' @ rev body)) = rev (decimal n)"
    using takeWhile_append2 [of "rev (decimal n)" decimalDigit "0x3D # (ascii ''t?'' @ rev body)"]
      all not_digit_eq by auto
  have d: "dropWhile decimalDigit (rev (decimal n) @ 0x3D # (ascii ''t?'' @ rev body))
             = 0x3D # (ascii ''t?'' @ rev body)"
    using dropWhile_append2 [of "rev (decimal n)" decimalDigit "0x3D # (ascii ''t?'' @ rev body)"]
      all not_digit_eq by auto
  show ?thesis
    unfolding matchesTimestamp_def r t d using decimal_nonempty by (simp add: ascii_def)
qed

lemma matchesTimestamp_query: "matchesTimestamp u \<Longrightarrow> 0x3F \<in> set u"
proof -
  assume "matchesTimestamp u"
  then have "prefix (rev (ascii ''?t='')) (dropWhile decimalDigit (rev u))"
    by (simp add: matchesTimestamp_def)
  then obtain r where "dropWhile decimalDigit (rev u) = rev (ascii ''?t='') @ r"
    by (auto simp: prefix_def)
  then have "0x3F \<in> set (dropWhile decimalDigit (rev u))" by (simp add: ascii_def)
  then have "0x3F \<in> set (rev u)" by (rule set_dropWhileD)
  then show ?thesis by simp
qed

section \<open>Lemmas on \<open>encodeURI\<close> and percent-decoding\<close>

lemma hexValue_hexDigit: "d < 16 \<Longrightarrow> hexValue (hexDigit d) = Some d"
  by (auto simp: hexValue_def hexDigit_def word_le_nat_alt unat_small simp del: of_nat_add)

lemma hexDigit_plain:
  "d < 16 \<Longrightarrow> hexDigit d \<noteq> 0x3F \<and> hexDigit d \<noteq> 0x23 \<and> hexDigit d \<noteq> 0x25"
  by (auto simp: hexDigit_def word_unat_eq_iff unat_small simp del: of_nat_add)

lemma UTF8_octets: "v < 0x110000 \<Longrightarrow> b \<in> set (UTF8 v) \<Longrightarrow> b < 256"
  by (auto simp: UTF8_def split: if_splits)

lemma percentDecode_escapeOctet:
  "b < 256 \<Longrightarrow> percentDecode (escapeOctet b @ rest) = map_option ((#) b) (percentDecode rest)"
  by (simp add: escapeOctet_def hexValue_hexDigit less_mult_imp_div_less)

lemma percentDecode_escapeOctets:
  "\<forall>b \<in> set bs. b < 256 \<Longrightarrow>
   percentDecode (escapeOctets bs @ rest) = map_option ((@) bs) (percentDecode rest)"
proof (induction bs)
  case Nil
  then show ?case by (simp add: escapeOctets_def option.map_ident)
next
  case (Cons b bs)
  then have "percentDecode (escapeOctets bs @ rest) = map_option ((@) bs) (percentDecode rest)"
    by simp
  with Cons.prems show ?case
    using percentDecode_escapeOctet [of b "escapeOctets bs @ rest"]
    by (simp add: escapeOctets_def option.map_comp comp_def)
qed

lemma utf8Decode_2:
  "a < 32 \<Longrightarrow> b < 64 \<Longrightarrow>
   utf8Decode ([0xC0 + a, 0x80 + b] @ bs)
     = map_option ((@) (codeUnits (a * 0x40 + b))) (utf8Decode bs)"
  by (simp add: continuation_def)

lemma utf8Decode_3:
  "a < 16 \<Longrightarrow> b < 64 \<Longrightarrow> c < 64 \<Longrightarrow>
   utf8Decode ([0xE0 + a, 0x80 + b, 0x80 + c] @ bs)
     = map_option ((@) (codeUnits (a * 0x1000 + b * 0x40 + c))) (utf8Decode bs)"
  by (simp add: continuation_def)

lemma utf8Decode_4:
  "a < 8 \<Longrightarrow> b < 64 \<Longrightarrow> c < 64 \<Longrightarrow> d < 64 \<Longrightarrow>
   utf8Decode ([0xF0 + a, 0x80 + b, 0x80 + c, 0x80 + d] @ bs)
     = map_option ((@) (codeUnits (a * 0x40000 + b * 0x1000 + c * 0x40 + d))) (utf8Decode bs)"
  by (simp add: continuation_def)

lemma split3: "(v::nat) div 4096 * 4096 + v div 64 mod 64 * 64 + v mod 64 = v"
proof -
  have "v div 64 div 64 = v div 4096" by (simp add: div_mult2_eq)
  moreover have "v div 64 div 64 * 64 + v div 64 mod 64 = v div 64" by simp
  moreover have "v div 64 * 64 + v mod 64 = v" by simp
  ultimately show ?thesis by linarith
qed

lemma split4:
  "(v::nat) div 262144 * 262144 + v div 4096 mod 64 * 4096 + v div 64 mod 64 * 64 + v mod 64 = v"
proof -
  have "v div 4096 div 64 = v div 262144" by (simp add: div_mult2_eq)
  moreover have "v div 4096 div 64 * 64 + v div 4096 mod 64 = v div 4096" by simp
  ultimately have "v div 262144 * 262144 + v div 4096 mod 64 * 4096 = v div 4096 * 4096"
    by linarith
  with split3 [of v] show ?thesis by linarith
qed

lemma utf8Decode_UTF8:
  assumes "v < 0x110000"
  shows "utf8Decode (UTF8 v @ bs) = map_option ((@) (codeUnits v)) (utf8Decode bs)"
proof -
  consider "v < 0x80" | "0x80 \<le> v" "v < 0x800" | "0x800 \<le> v" "v < 0x10000" | "0x10000 \<le> v"
    by linarith
  then show ?thesis
  proof cases
    case 1
    then show ?thesis by (simp add: UTF8_def)
  next
    case 2
    define a b where "a = v div 64" and "b = v mod 64"
    have "a < 32" unfolding a_def using 2 by (simp add: div_less_iff_less_mult)
    moreover have "b < 64" unfolding b_def by simp
    moreover have v: "a * 64 + b = v" by (simp add: a_def b_def)
    moreover have "UTF8 v = [0xC0 + a, 0x80 + b]" using 2 by (simp add: UTF8_def a_def b_def)
    ultimately show ?thesis using utf8Decode_2 [of a b bs] by simp
  next
    case 3
    define a b c where "a = v div 4096" and "b = v div 64 mod 64" and "c = v mod 64"
    have "a < 16" unfolding a_def using 3 by (simp add: div_less_iff_less_mult)
    moreover have "b < 64" "c < 64" unfolding b_def c_def by simp_all
    moreover have v: "a * 4096 + b * 64 + c = v" unfolding a_def b_def c_def by (rule split3)
    moreover have "UTF8 v = [0xE0 + a, 0x80 + b, 0x80 + c]"
      using 3 by (simp add: UTF8_def a_def b_def c_def)
    ultimately show ?thesis using utf8Decode_3 [of a b c bs] by simp
  next
    case 4
    define a b c d where "a = v div 262144" and "b = v div 4096 mod 64"
      and "c = v div 64 mod 64" and "d = v mod 64"
    have "a < 8" unfolding a_def using assms by (simp add: div_less_iff_less_mult)
    moreover have "b < 64" "c < 64" "d < 64" unfolding b_def c_def d_def by simp_all
    moreover have v: "a * 262144 + b * 4096 + c * 64 + d = v"
      unfolding a_def b_def c_def d_def by (rule split4)
    moreover have "UTF8 v = [0xF0 + a, 0x80 + b, 0x80 + c, 0x80 + d]"
      using 4 by (simp add: UTF8_def a_def b_def c_def d_def)
    ultimately show ?thesis using utf8Decode_4 [of a b c d bs] by simp
  qed
qed

lemma unescaped_ascii: "unescapedURISet c \<Longrightarrow> c < 0x80 \<and> c \<noteq> 0x25"
  by (auto simp: unescapedURISet_def uriReserved_def uriMark_def uriAlpha_def decimalDigit_def
      ascii_def word_le_nat_alt word_less_nat_alt)

lemma unescaped_query_hash: "unescapedURISet 0x3F" "unescapedURISet 0x23"
  by (simp_all add: unescapedURISet_def uriReserved_def ascii_def)

lemma codeUnits_unat: "codeUnits (unat (c::16 word)) = [c]"
  using unat_bound [of c] by (simp add: codeUnits_def)

lemma pairCodePoint_bound:
  assumes "isHighSurrogate c" and "isLowSurrogate k"
  shows "pairCodePoint c k < 0x110000"
proof -
  have "unat c - 0xD800 \<le> 0x3FF" and k: "unat k - 0xDC00 \<le> 0x3FF"
    using assms by (auto simp: isHighSurrogate_def isLowSurrogate_def word_le_nat_alt)
  then have "(unat c - 0xD800) * 0x400 \<le> 0x3FF * 0x400" by (intro mult_le_mono1)
  with k show ?thesis unfolding pairCodePoint_def by linarith
qed

lemma codeUnits_pair:
  assumes "isHighSurrogate c" and "isLowSurrogate k"
  shows "codeUnits (pairCodePoint c k) = [c, k]"
proof -
  define a b where "a = unat c - 0xD800" and "b = unat k - 0xDC00"
  have c: "unat c = 0xD800 + a" and k: "unat k = 0xDC00 + b" and b: "b < 0x400"
    using assms by (auto simp: a_def b_def isHighSurrogate_def isLowSurrogate_def
        word_le_nat_alt)
  have v: "pairCodePoint c k = 0x10000 + (a * 0x400 + b)"
    by (simp add: pairCodePoint_def a_def b_def)
  have "(a * 0x400 + b) div 0x400 = a" "(a * 0x400 + b) mod 0x400 = b" using b by simp_all
  then have "codeUnits (pairCodePoint c k) = [of_nat (unat c), of_nat (unat k)]"
    unfolding v c k by (simp add: codeUnits_def del: of_nat_add)
  then show ?thesis by simp
qed

lemma decode_plain:
  assumes "c < 0x80" and "c \<noteq> 0x25"
  shows "percentDecodeString (c # x) = map_option ((#) c) (percentDecodeString x)"
proof -
  have "unat c < 0x80" using assms(1) by (simp add: word_less_nat_alt)
  moreover have "(@) [c] = (#) c" by (rule ext) simp
  ultimately have "utf8Decode (unat c # bs) = map_option ((#) c) (utf8Decode bs)" for bs
    using codeUnits_unat [of c] by simp
  then show ?thesis
    using assms by (cases "percentDecode x") (simp_all add: percentDecodeString_def)
qed

lemma decode_escaped:
  assumes "v < 0x110000"
  shows "percentDecodeString (escapeOctets (UTF8 v) @ x)
           = map_option ((@) (codeUnits v)) (percentDecodeString x)"
proof -
  have "\<forall>b \<in> set (UTF8 v). b < 256" using UTF8_octets [OF assms] by blast
  then have "percentDecode (escapeOctets (UTF8 v) @ x) = map_option ((@) (UTF8 v)) (percentDecode x)"
    by (rule percentDecode_escapeOctets)
  then show ?thesis
    using utf8Decode_UTF8 [OF assms]
    by (cases "percentDecode x") (simp_all add: percentDecodeString_def)
qed

lemma escapeOctets_plain:
  assumes "v < 0x110000"
  shows "\<forall>c \<in> set (escapeOctets (UTF8 v)). c \<noteq> 0x3F \<and> c \<noteq> 0x23"
proof -
  have "\<forall>c \<in> set (escapeOctet b). c \<noteq> 0x3F \<and> c \<noteq> 0x23" if "b < 256" for b
    using that hexDigit_plain [of "b div 16"] hexDigit_plain [of "b mod 16"]
    by (simp add: escapeOctet_def div_less_iff_less_mult)
  then show ?thesis using UTF8_octets [OF assms] by (auto simp: escapeOctets_def)
qed

lemma andThen_Inr: "andThen pre r = Inr e \<longleftrightarrow> (\<exists>e'. r = Inr e' \<and> e = pre @ e')"
  by (cases r) (auto simp: andThen_def)

lemma urlPath_Cons:
  "urlPath (c # x) = (if c = 0x3F \<or> c = 0x23 then [] else c # urlPath x)"
  by (simp add: urlPath_def)

lemma urlPath_escaped:
  "v < 0x110000 \<Longrightarrow> urlPath (escapeOctets (UTF8 v) @ x) = escapeOctets (UTF8 v) @ urlPath x"
  unfolding urlPath_def using escapeOctets_plain [of v] by (intro takeWhile_append2) auto

lemma low_not_plain: "isLowSurrogate k \<Longrightarrow> k \<noteq> 0x3F \<and> k \<noteq> 0x23"
  by (auto simp: isLowSurrogate_def)

text \<open>
  The path portion of an encoded string decodes to the path portion of the string that was
  encoded: the characters before its first \<open>?\<close> or \<open>#\<close>.
\<close>

lemma decode_path_of_encoded:
  "encodeURI s = Inr e \<Longrightarrow> percentDecodeString (urlPath e) = Some (urlPath s)"
proof (induction s arbitrary: e rule: encodeURI.induct)
  case 1
  then show ?case by (simp add: urlPath_def percentDecodeString_def)
next
  case (2 c cs)
  show ?case
  proof (cases "unescapedURISet c")
    case True
    with "2.prems" obtain e' where e': "encodeURI cs = Inr e'" and e: "e = c # e'"
      by (auto simp: andThen_Inr)
    from "2.IH"(1) [OF True e'] have IH: "percentDecodeString (urlPath e') = Some (urlPath cs)" .
    show ?thesis
    proof (cases "c = 0x3F \<or> c = 0x23")
      case True
      then show ?thesis by (auto simp: e urlPath_Cons percentDecodeString_def)
    next
      case False
      with unescaped_ascii [OF True] IH show ?thesis
        by (simp add: e urlPath_Cons decode_plain)
    qed
  next
    case False
    then have plain: "c \<noteq> 0x3F \<and> c \<noteq> 0x23" using unescaped_query_hash by auto
    show ?thesis
    proof (cases "isLowSurrogate c")
      case True
      with False "2.prems" show ?thesis by simp
    next
      case low: False
      show ?thesis
      proof (cases "isHighSurrogate c")
        case high: False
        with False low "2.prems" obtain e' where e': "encodeURI cs = Inr e'"
          and e: "e = escapeOctets (UTF8 (unat c)) @ e'"
          by (auto simp: andThen_Inr)
        from "2.IH"(2) [OF False low _ e'] high
        have IH: "percentDecodeString (urlPath e') = Some (urlPath cs)" by simp
        have v: "unat c < 0x110000" using unat_bound [of c] by simp
        show ?thesis
          using plain IH
          by (simp add: e urlPath_Cons urlPath_escaped [OF v] decode_escaped [OF v] codeUnits_unat)
      next
        case high: True
        with False low "2.prems" obtain k ks e' where cs: "cs = k # ks"
          and k: "isLowSurrogate k" and e': "encodeURI ks = Inr e'"
          and e: "e = escapeOctets (UTF8 (pairCodePoint c k)) @ e'"
          by (cases cs) (auto simp: andThen_Inr split: if_splits)
        from "2.IH"(3) [OF False low _ cs _ e'] high k
        have IH: "percentDecodeString (urlPath e') = Some (urlPath ks)" by simp
        have v: "pairCodePoint c k < 0x110000" using high k by (rule pairCodePoint_bound)
        show ?thesis
          using plain low_not_plain [OF k] IH
          by (simp add: e cs urlPath_Cons urlPath_escaped [OF v] decode_escaped [OF v]
              codeUnits_pair [OF high k])
      qed
    qed
  qed
qed

lemma encodeURI_keeps:
  "encodeURI s = Inr e \<Longrightarrow> q = 0x3F \<or> q = 0x23 \<Longrightarrow> q \<in> set e \<longleftrightarrow> q \<in> set s"
proof (induction s arbitrary: e rule: encodeURI.induct)
  case 1
  then show ?case by simp
next
  case (2 c cs)
  show ?case
  proof (cases "unescapedURISet c")
    case True
    with "2.prems" obtain e' where e': "encodeURI cs = Inr e'" and e: "e = c # e'"
      by (auto simp: andThen_Inr)
    from "2.IH"(1) [OF True e' "2.prems"(2)] show ?thesis by (simp add: e)
  next
    case False
    then have qc: "q \<noteq> c" using unescaped_query_hash "2.prems"(2) by auto
    show ?thesis
    proof (cases "isLowSurrogate c")
      case True
      with False "2.prems" show ?thesis by simp
    next
      case low: False
      show ?thesis
      proof (cases "isHighSurrogate c")
        case high: False
        with False low "2.prems" obtain e' where e': "encodeURI cs = Inr e'"
          and e: "e = escapeOctets (UTF8 (unat c)) @ e'"
          by (auto simp: andThen_Inr)
        from "2.IH"(2) [OF False low _ e' "2.prems"(2)] high
        have IH: "q \<in> set e' \<longleftrightarrow> q \<in> set cs" by simp
        have v: "unat c < 0x110000" using unat_bound [of c] by simp
        have "q \<notin> set (escapeOctets (UTF8 (unat c)))"
          using escapeOctets_plain [OF v] "2.prems"(2) by auto
        with IH qc show ?thesis by (simp add: e)
      next
        case high: True
        with False low "2.prems" obtain k ks e' where cs: "cs = k # ks"
          and k: "isLowSurrogate k" and e': "encodeURI ks = Inr e'"
          and e: "e = escapeOctets (UTF8 (pairCodePoint c k)) @ e'"
          by (cases cs) (auto simp: andThen_Inr split: if_splits)
        from "2.IH"(3) [OF False low _ cs _ e' "2.prems"(2)] high k
        have IH: "q \<in> set e' \<longleftrightarrow> q \<in> set ks" by simp
        have v: "pairCodePoint c k < 0x110000" using high k by (rule pairCodePoint_bound)
        have "q \<notin> set (escapeOctets (UTF8 (pairCodePoint c k)))"
          using escapeOctets_plain [OF v] "2.prems"(2) by auto
        moreover have "q \<noteq> k" using low_not_plain [OF k] "2.prems"(2) by auto
        ultimately show ?thesis using IH qc by (simp add: e cs)
      qed
    qed
  qed
qed

lemma pathToURL_Inr:
  "pathToURL wd rootDir fullPath pre = Inr u \<longleftrightarrow>
     (\<exists>enc. encodeURI (relative wd rootDir fullPath) = Inr enc \<and> u = pre @ ascii ''/'' @ enc)"
  by (auto simp: pathToURL_def Let_def andThen_Inr)

lemma stripNamespace_url: "stripNamespace pre (pre @ ascii ''/'' @ enc) = enc"
  by (simp add: stripNamespace_def ascii_def)

lemma urlPath_id: "urlPath s = s \<longleftrightarrow> 0x3F \<notin> set s \<and> 0x23 \<notin> set s"
  unfolding urlPath_def takeWhile_eq_all_conv by auto

lemma urlPath_query: "urlPath (x @ ascii ''?t='' @ y) = urlPath x"
proof -
  have "takeWhile P (xs @ z # zs) = takeWhile P xs" if "\<not> P z" for P and xs :: jsstring and z zs
    using that by (induction xs) simp_all
  from this [of "\<lambda>c. c \<noteq> 0x3F \<and> c \<noteq> 0x23" "0x3F" x "ascii ''t='' @ y"]
  show ?thesis by (simp add: urlPath_def ascii_def)
qed

section \<open>Lemmas on browser selection\<close>

lemma set_baseIntersection:
  "set (baseIntersection result xs others) = set result \<union> (set xs \<inter> set others)"
  by (induction result xs others rule: baseIntersection.induct) auto

lemma distinct_baseIntersection:
  "distinct result \<Longrightarrow> distinct (baseIntersection result xs others)"
  by (induction result xs others rule: baseIntersection.induct) auto

lemma set_filterBrowsers: "set (filterBrowsers cfg cli) = set cfg \<inter> set cli"
  by (simp add: filterBrowsers_def intersection_def set_baseIntersection)

lemma distinct_filterBrowsers: "distinct (filterBrowsers cfg cli)"
  by (simp add: filterBrowsers_def intersection_def distinct_baseIntersection)

lemma filterBrowsers_Nil: "filterBrowsers xs [] = []"
  using set_filterBrowsers [of xs "[]"] by simp

section \<open>Lemmas on promises and the file system\<close>

lemma thenP_ok:
  "fst (p w) = Inr x \<Longrightarrow> thenP p f w = f x (snd (p w))"
  by (cases "p w") (auto simp: thenP_def)

lemma thenP_failed:
  "fst (p w) = Inl err \<Longrightarrow> thenP p f w = (Inl err, snd (p w))"
  by (cases "p w") (auto simp: thenP_def)

lemma thenP_InrE:
  assumes "thenP p f w = (Inr y, w')"
  obtains x w1 where "p w = (Inr x, w1)" and "f x w1 = (Inr y, w')"
  using assms by (cases "p w") (auto simp: thenP_def split: sum.splits)

lemma thenP_snd_cases:
  "snd (thenP p f w) = (case fst (p w) of Inl err \<Rightarrow> snd (p w) | Inr x \<Rightarrow> snd (f x (snd (p w))))"
  by (cases "p w") (auto simp: thenP_def split: sum.splits)

lemma all2_fst:
  "fst (p w) = Inr x \<Longrightarrow> fst (q (snd (p w))) = Inr y \<Longrightarrow> fst (all2 p q w) = Inr (x, y)"
  by (cases "p w"; cases "q (snd (p w))") (auto simp: all2_def)

lemma all2_snd: "snd (all2 p q w) = snd (q (snd (p w)))"
  by (cases "p w"; cases "q (snd (p w))") (auto simp: all2_def)

lemma wellFormed_absent_below:
  assumes wf: "wellFormed fs" and abs: "fs c = None" and pre: "prefix c p"
  shows "fs p = None"
  using pre
proof (induction p rule: rev_induct)
  case Nil
  then show ?case using abs by simp
next
  case (snoc x q)
  show ?case
  proof (cases "c = q @ [x]")
    case True
    then show ?thesis using abs by simp
  next
    case False
    with snoc.prems have "prefix c q" by (auto simp: prefix_snoc)
    then have "fs q = None" by (rule snoc.IH)
    show ?thesis
    proof (rule ccontr)
      assume "fs (q @ [x]) \<noteq> None"
      with wf have "fs (butlast (q @ [x])) = Some Dir"
        unfolding wellFormed_def by blast
      with \<open>fs q = None\<close> show False by simp
    qed
  qed
qed

lemma removeTreeIfExists_fst:
  "fst (removeTreeIfExists e p w) = Inr ()"
  by (cases "files w (resolve (cwd e) p)")
     (simp_all add: removeTreeIfExists_def thenP_def fs_exists_def fs_removeTree_def
        Let_def emit_def resolved_def)

lemma removeTreeIfExists_files:
  assumes "wellFormed (files w)"
  shows "files (snd (removeTreeIfExists e p w)) = removeBelow (resolve (cwd e) p) (files w)"
proof (cases "files w (resolve (cwd e) p)")
  case None
  have "removeBelow (resolve (cwd e) p) (files w) = files w"
    unfolding removeBelow_def
    using wellFormed_absent_below [OF assms None] by (intro ext) auto
  with None show ?thesis
    by (simp add: removeTreeIfExists_def thenP_def fs_exists_def resolved_def emit_def)
next
  case (Some n)
  then show ?thesis
    by (simp add: removeTreeIfExists_def thenP_def fs_exists_def fs_removeTree_def
        Let_def emit_def removeBelow_def cong: if_cong)
qed

lemma wellFormed_removeBelow: "wellFormed fs \<Longrightarrow> wellFormed (removeBelow c fs)"
  unfolding wellFormed_def removeBelow_def
  by (metis butlast_snoc rev_exhaust prefix_order.dual_order.trans prefixI)

lemma fs_makeDirectory_ok:
  assumes "rp = resolve (cwd e) p" and "rp \<noteq> []" and "files w (butlast rp) = Some Dir"
    and "files w rp = None"
  shows "fst (fs_makeDirectory e p w) = Inr ()"
    and "files (snd (fs_makeDirectory e p w)) = (files w)(rp \<mapsto> Dir)"
  using assms by (simp_all add: fs_makeDirectory_def mkdir_def Let_def emit_def)

lemma not_prefix_own_butlast: "c \<noteq> [] \<Longrightarrow> \<not> prefix c (butlast c)"
proof
  assume ne: "c \<noteq> []" and p: "prefix c (butlast c)"
  from p have "length c \<le> length (butlast c)" by (rule prefix_length_le)
  with ne show False by (cases c rule: rev_cases) simp_all
qed

lemma not_prefix_butlast: "\<not> prefix d c \<Longrightarrow> \<not> prefix d (butlast c)"
  by (metis prefix_order.trans prefixeq_butlast)

lemma mkdir_preserves: "mkdir fs d = Inr fs' \<Longrightarrow> fs k = Some v \<Longrightarrow> fs' k = Some v"
  by (auto simp: mkdir_def split: if_splits option.splits node.splits)

lemma mkdirs_preserves: "fs k = Some v \<Longrightarrow> snd (mkdirs fs ds) k = Some v"
proof (induction ds arbitrary: fs)
  case Nil
  then show ?case by simp
next
  case (Cons d ds)
  show ?case
  proof (cases "mkdir fs d")
    case (Inl err)
    with Cons show ?thesis by simp
  next
    case (Inr fs')
    with Cons.prems have "fs' k = Some v" by (simp add: mkdir_preserves)
    with Inr Cons.IH show ?thesis by simp
  qed
qed

lemma fs_makeTree_files:
  "files w k = Some v \<Longrightarrow> files (snd (fs_makeTree e p w)) k = Some v"
  using mkdirs_preserves [of "files w" k v "tl (prefixes (resolve (cwd e) p))"]
  by (auto simp: fs_makeTree_def Let_def emit_def split: prod.splits option.splits)

lemma fs_makeTree_trace:
  "trace (snd (fs_makeTree e p w)) = trace w @ [MakeTree p]"
  by (auto simp: fs_makeTree_def Let_def emit_def split: prod.splits option.splits)

lemma deleteRefImg_file:
  assumes "files w (resolve (cwd e) p) = Some (File n)"
  shows "deleteRefImg e p w =
           (Inr (), \<lparr>files = (files w)(resolve (cwd e) p := None),
                     trace = trace w @ [IsFile p, Remove p]\<rparr>)"
  using assms
  by (simp add: deleteRefImg_def thenP_def fs_isFile_def fs_remove_def Let_def emit_def)

lemma compress_files:
  "files (snd (compressAndCopyRefImg e r c w)) =
     snd (subprocess e (optipng e) [ascii ''-out'', r, c] (files w))"
  by (auto simp: compressAndCopyRefImg_def nfcall_execFile_def Let_def emit_def
      split: prod.splits option.splits)

lemma compress_trace:
  "trace (snd (compressAndCopyRefImg e r c w)) =
     trace w @ [ExecFile (optipng e) [ascii ''-out'', r, c]]"
  by (auto simp: compressAndCopyRefImg_def nfcall_execFile_def Let_def emit_def
      split: prod.splits option.splits)

lemma calcCompression_files: "files (snd (calcCompression e r c w)) = files w"
  by (auto simp: calcCompression_def compareSize_def thenP_def resolved_def Let_def emit_def
      split: sum.splits)

lemma calcCompression_trace: "trace (snd (calcCompression e r c w)) = trace w @ [CompareSize r c]"
  by (auto simp: calcCompression_def compareSize_def thenP_def resolved_def Let_def emit_def
      split: sum.splits)

lemma report_files:
  "files (snd (thenP (calcCompression e r c)
                 (\<lambda>rate. thenP (console_log (msg rate)) (\<lambda>_. fromSum x)) w)) = files w"
  by (auto simp: thenP_snd_cases calcCompression_files console_log_def fromSum_def emit_def
      split: sum.splits)

lemma report_trace:
  "\<exists>rest. trace (snd (thenP (calcCompression e r c)
                 (\<lambda>rate. thenP (console_log (msg rate)) (\<lambda>_. fromSum x)) w)) = trace w @ rest"
  by (auto simp: thenP_snd_cases calcCompression_trace console_log_def fromSum_def emit_def
      split: sum.splits)

lemma calcCompression_result:
  assumes "calcCompression e r c w = (Inr rate, w')" and "c \<noteq> ascii ''difference''"
  shows "\<exists>sr sc. statSize e (files w) r = Inr sr \<and> statSize e (files w) c = Inr sc \<and>
           rate = mathRoundDiv (abs (sc - sr) * 100) sc \<and> files w' = files w"
  using assms
  by (auto simp: calcCompression_def compareSize_def thenP_def resolved_def Let_def emit_def
      roundRate_def split: sum.splits)

lemma mathRoundDiv_round:
  assumes "0 < q"
  shows "mathRoundDiv p q = Num (round (real_of_int p / real_of_int q))"
proof -
  have "real_of_int p / real_of_int q + 1 / 2 = real_of_int (2 * p + q) / real_of_int (2 * q)"
    using assms by (simp add: field_simps)
  then have "round (real_of_int p / real_of_int q) = (2 * p + q) div (2 * q)"
    unfolding round_def by (simp only: floor_divide_of_int_eq)
  with assms show ?thesis by (simp add: mathRoundDiv_def)
qed

section \<open>The example run\<close>

lemmas ev = ascii_def slash_def resolve_def relative_def isAbsolute_def dirname_def
  unescapedURISet_def uriReserved_def uriAlpha_def uriMark_def decimalDigit_def isHighSurrogate_def isLowSurrogate_def
  UTF8_def hexDigit_def escapeOctet_def escapeOctets_def andThen_def pairCodePoint_def

lemma ex_found: "Index_find (failedTests exampleApp) exampleDescriptor = Some exampleTest"
  by (simp add: Index_find_def exampleApp_def Index_add_def keyOf_def exampleDescriptor_def exampleTest_def)

lemma ex_ref: "resolve (cwd exampleEnv) (referencePath exampleTest)
   = [ascii ''shots'', ascii ''suite'', ascii ''plain'', ascii ''chrome.png'']"
  by (simp add: exampleEnv_def exampleTest_def ev)

lemma ex_cur: "resolve (cwd exampleEnv) (currentPath exampleTest)
   = [ascii ''tmp'', ascii ''curr'', ascii ''img.png'']"
  by (simp add: exampleEnv_def exampleTest_def ev)

lemma ex_isfile: "files exampleWorld (resolve (cwd exampleEnv) (referencePath exampleTest)) = Some (File 900)"
  unfolding ex_ref by (simp add: exampleWorld_def exampleFiles_def ascii_def)

lemma ex_dirname: "dirname (referencePath exampleTest) = ascii ''/shots/suite/plain''"
  by (simp add: exampleTest_def ev)

lemma ex_dir: "resolve (cwd exampleEnv) (ascii ''/shots/suite/plain'')
   = [ascii ''shots'', ascii ''suite'', ascii ''plain'']"
  by (simp add: exampleEnv_def ev)

lemma ex_makeTree: "fs_makeTree exampleEnv (dirname (referencePath exampleTest)) exampleWorld
    = (Inr (), \<lparr>files = exampleFiles, trace = [MakeTree (ascii ''/shots/suite/plain'')]\<rparr>)"
  unfolding ex_dirname fs_makeTree_def ex_dir
  by (simp add: exampleWorld_def exampleFiles_def mkdir_def emit_def ascii_def)

lemma ex_makeTree_broken:
  "fs_makeTree exampleEnv (dirname (referencePath exampleTest)) \<lparr>files = brokenFiles, trace = []\<rparr>
    = (Inl ENOTDIR, \<lparr>files = brokenFiles, trace = [MakeTree (ascii ''/shots/suite/plain'')]\<rparr>)"
  unfolding ex_dirname fs_makeTree_def ex_dir
  by (simp add: brokenFiles_def exampleFiles_def mkdir_def emit_def ascii_def)

lemma ex_delete:
  "deleteRefImg exampleEnv (referencePath exampleTest)
      \<lparr>files = exampleFiles, trace = [MakeTree (ascii ''/shots/suite/plain'')]\<rparr>
   = (Inr (), \<lparr>files = exampleFiles(resolve (cwd exampleEnv) (referencePath exampleTest) := None),
                trace = [MakeTree (ascii ''/shots/suite/plain''),
                         IsFile (referencePath exampleTest), Remove (referencePath exampleTest)]\<rparr>)"
  using deleteRefImg_file [of "\<lparr>files = exampleFiles, trace = [MakeTree (ascii ''/shots/suite/plain'')]\<rparr>"
      exampleEnv "referencePath exampleTest" 900] ex_isfile
  by (simp add: exampleWorld_def)

lemma ex_compress:
  "compressAndCopyRefImg exampleEnv (referencePath exampleTest) (currentPath exampleTest)
      \<lparr>files = exampleFiles(resolve (cwd exampleEnv) (referencePath exampleTest) := None),
       trace = tr\<rparr>
   = (Inr (), \<lparr>files = exampleFiles(resolve (cwd exampleEnv) (referencePath exampleTest) \<mapsto> File 1000),
                trace = tr @ [ExecFile (ascii ''optipng'')
                   [ascii ''-out'', referencePath exampleTest, currentPath exampleTest]]\<rparr>)"
proof -
  have "subprocess exampleEnv (optipng exampleEnv)
          [ascii ''-out'', referencePath exampleTest, currentPath exampleTest]
          (exampleFiles(resolve (cwd exampleEnv) (referencePath exampleTest) := None))
        = (None, exampleFiles(resolve (cwd exampleEnv) (referencePath exampleTest) \<mapsto> File 1000))"
    using ex_cur ex_ref
    by (simp add: exampleEnv_def exampleFiles_def ascii_def)
  then show ?thesis
    by (simp add: compressAndCopyRefImg_def nfcall_execFile_def emit_def exampleEnv_def)
qed

lemma ex_calc:
  "calcCompression exampleEnv (referencePath exampleTest) (currentPath exampleTest)
      \<lparr>files = exampleFiles(resolve (cwd exampleEnv) (referencePath exampleTest) \<mapsto> File 1000),
       trace = tr\<rparr>
   = (Inr (Num 33),
      \<lparr>files = exampleFiles(resolve (cwd exampleEnv) (referencePath exampleTest) \<mapsto> File 1000),
       trace = tr @ [CompareSize (referencePath exampleTest) (currentPath exampleTest)]\<rparr>)"
proof -
  have neq: "currentPath exampleTest \<noteq> referencePath exampleTest"
    "currentPath exampleTest \<noteq> ascii ''difference''"
    by (simp_all add: exampleTest_def ascii_def)
  have "statSize exampleEnv
          (exampleFiles(resolve (cwd exampleEnv) (referencePath exampleTest) \<mapsto> File 1000))
          (referencePath exampleTest) = Inr 1000"
    by (simp add: statSize_def)
  moreover have "statSize exampleEnv
          (exampleFiles(resolve (cwd exampleEnv) (referencePath exampleTest) \<mapsto> File 1000))
          (currentPath exampleTest) = Inr 750"
    unfolding statSize_def ex_cur ex_ref by (simp add: exampleFiles_def ascii_def)
  ultimately show ?thesis
    using neq
    by (simp add: calcCompression_def compareSize_def thenP_def resolved_def emit_def
        roundRate_def mathRoundDiv_def)
qed

lemma ex_message:
  "updateMessage (referencePath exampleTest) (Num 33)
     = ascii ''Reference image /shots/suite/plain/chrome.png has been updated (compressed on: 33%).''"
  by (simp add: updateMessage_def exampleTest_def ascii_def decimal.simps)

lemma ex_url:
  "refPathToURL (cwd exampleEnv) (now exampleEnv) exampleApp (referencePath exampleTest)
       (browserId exampleTest)
     = Inr (ascii ''/ref/chrome/suite/plain/chrome.png?t=1478000000000'')"
  by (simp add: refPathToURL_def exampleApp_def exampleTest_def exampleEnv_def pathToURL_def
      refPrefix_def appendTimestampToURL_def decimal.simps ev)

lemma ex_run:
  "updateReferenceImage exampleEnv exampleApp exampleDescriptor exampleWorld
     = (Inr (ascii ''/ref/chrome/suite/plain/chrome.png?t=1478000000000''),
        \<lparr>files = exampleFiles(resolve (cwd exampleEnv) (referencePath exampleTest) \<mapsto> File 1000),
         trace = [MakeTree (ascii ''/shots/suite/plain''),
                  IsFile (referencePath exampleTest), Remove (referencePath exampleTest),
                  ExecFile (ascii ''optipng'')
                    [ascii ''-out'', referencePath exampleTest, currentPath exampleTest],
                  CompareSize (referencePath exampleTest) (currentPath exampleTest),
                  ConsoleLog (ascii ''Reference image /shots/suite/plain/chrome.png has been updated (compressed on: 33%).'')]\<rparr>)"
  by (simp add: updateReferenceImage_def ex_found thenP_def ex_makeTree ex_delete ex_compress
      ex_calc ex_message ex_url console_log_def emit_def fromSum_def)

lemma hv_ref: "resolve (cwd halvingEnv) (referencePath exampleTest)
   = [ascii ''shots'', ascii ''suite'', ascii ''plain'', ascii ''chrome.png'']"
  by (simp add: halvingEnv_def exampleTest_def ev)

lemma hv_cur: "resolve (cwd halvingEnv) (currentPath exampleTest)
   = [ascii ''tmp'', ascii ''curr'', ascii ''img.png'']"
  by (simp add: halvingEnv_def exampleTest_def ev)

lemma hv_isfile:
  "files \<lparr>files = largeFiles, trace = tr\<rparr> (resolve (cwd halvingEnv) (referencePath exampleTest))
     = Some (File 900)"
  unfolding hv_ref by (simp add: largeFiles_def exampleFiles_def ascii_def)

lemma hv_dir: "resolve (cwd halvingEnv) (ascii ''/shots/suite/plain'')
   = [ascii ''shots'', ascii ''suite'', ascii ''plain'']"
  by (simp add: halvingEnv_def ev)

lemma hv_makeTree:
  "fs_makeTree halvingEnv (dirname (referencePath exampleTest)) \<lparr>files = largeFiles, trace = []\<rparr>
    = (Inr (), \<lparr>files = largeFiles, trace = [MakeTree (ascii ''/shots/suite/plain'')]\<rparr>)"
  unfolding ex_dirname fs_makeTree_def hv_dir
  by (simp add: largeFiles_def exampleFiles_def mkdir_def emit_def ascii_def)

lemma hv_delete:
  "deleteRefImg halvingEnv (referencePath exampleTest)
      \<lparr>files = largeFiles, trace = [MakeTree (ascii ''/shots/suite/plain'')]\<rparr>
   = (Inr (), \<lparr>files = largeFiles(resolve (cwd halvingEnv) (referencePath exampleTest) := None),
                trace = [MakeTree (ascii ''/shots/suite/plain''),
                         IsFile (referencePath exampleTest), Remove (referencePath exampleTest)]\<rparr>)"
  using deleteRefImg_file [OF hv_isfile [of "[MakeTree (ascii ''/shots/suite/plain'')]"]]
  by simp

lemma hv_compress:
  "compressAndCopyRefImg halvingEnv (referencePath exampleTest) (currentPath exampleTest)
      \<lparr>files = largeFiles(resolve (cwd halvingEnv) (referencePath exampleTest) := None),
       trace = tr\<rparr>
   = (Inr (), \<lparr>files = largeFiles(resolve (cwd halvingEnv) (referencePath exampleTest) \<mapsto> File 15000),
                trace = tr @ [ExecFile (ascii ''optipng'')
                   [ascii ''-out'', referencePath exampleTest, currentPath exampleTest]]\<rparr>)"
proof -
  have "subprocess halvingEnv (optipng halvingEnv)
          [ascii ''-out'', referencePath exampleTest, currentPath exampleTest]
          (largeFiles(resolve (cwd halvingEnv) (referencePath exampleTest) := None))
        = (None, largeFiles(resolve (cwd halvingEnv) (referencePath exampleTest) \<mapsto> File 15000))"
    using hv_cur hv_ref
    by (simp add: halvingEnv_def largeFiles_def exampleFiles_def ascii_def)
  then show ?thesis
    by (simp add: compressAndCopyRefImg_def nfcall_execFile_def emit_def halvingEnv_def)
qed

lemma hv_sizes:
  "statSize halvingEnv
     (largeFiles(resolve (cwd halvingEnv) (referencePath exampleTest) \<mapsto> File 15000))
     (referencePath exampleTest) = Inr 15000"
  "statSize halvingEnv
     (largeFiles(resolve (cwd halvingEnv) (referencePath exampleTest) \<mapsto> File 15000))
     (currentPath exampleTest) = Inr 30000"
proof -
  show "statSize halvingEnv
     (largeFiles(resolve (cwd halvingEnv) (referencePath exampleTest) \<mapsto> File 15000))
     (referencePath exampleTest) = Inr 15000"
    by (simp add: statSize_def)
  show "statSize halvingEnv
     (largeFiles(resolve (cwd halvingEnv) (referencePath exampleTest) \<mapsto> File 15000))
     (currentPath exampleTest) = Inr 30000"
    unfolding statSize_def hv_cur hv_ref by (simp add: largeFiles_def ascii_def)
qed

lemma hv_calc:
  "calcCompression halvingEnv (referencePath exampleTest) (currentPath exampleTest)
      \<lparr>files = largeFiles(resolve (cwd halvingEnv) (referencePath exampleTest) \<mapsto> File 15000),
       trace = tr\<rparr>
   = (Inr (Num 50),
      \<lparr>files = largeFiles(resolve (cwd halvingEnv) (referencePath exampleTest) \<mapsto> File 15000),
       trace = tr @ [CompareSize (referencePath exampleTest) (currentPath exampleTest)]\<rparr>)"
proof -
  have neq: "currentPath exampleTest \<noteq> referencePath exampleTest"
    "currentPath exampleTest \<noteq> ascii ''difference''"
    by (simp_all add: exampleTest_def ascii_def)
  with hv_sizes show ?thesis
    by (simp add: calcCompression_def compareSize_def thenP_def resolved_def emit_def
        roundRate_def mathRoundDiv_def)
qed

lemma hv_message:
  "updateMessage (referencePath exampleTest) (Num 50)
     = ascii ''Reference image /shots/suite/plain/chrome.png has been updated (compressed on: 50%).''"
  by (simp add: updateMessage_def exampleTest_def ascii_def decimal.simps)

lemma hv_url:
  "refPathToURL (cwd halvingEnv) (now halvingEnv) exampleApp (referencePath exampleTest)
       (browserId exampleTest)
     = Inr (ascii ''/ref/chrome/suite/plain/chrome.png?t=1478000000000'')"
  using ex_url by (simp add: halvingEnv_def exampleEnv_def)

lemma hv_run:
  "updateReferenceImage halvingEnv exampleApp exampleDescriptor \<lparr>files = largeFiles, trace = []\<rparr>
     = (Inr (ascii ''/ref/chrome/suite/plain/chrome.png?t=1478000000000''),
        \<lparr>files = largeFiles(resolve (cwd halvingEnv) (referencePath exampleTest) \<mapsto> File 15000),
         trace = [MakeTree (ascii ''/shots/suite/plain''),
                  IsFile (referencePath exampleTest), Remove (referencePath exampleTest),
                  ExecFile (ascii ''optipng'')
                    [ascii ''-out'', referencePath exampleTest, currentPath exampleTest],
                  CompareSize (referencePath exampleTest) (currentPath exampleTest),
                  ConsoleLog (ascii ''Reference image /shots/suite/plain/chrome.png has been updated (compressed on: 50%).'')]\<rparr>)"
  by (simp add: updateReferenceImage_def ex_found thenP_def hv_makeTree hv_delete hv_compress
      hv_calc hv_message hv_url console_log_def emit_def fromSum_def)

lemma ex_empty_capture:
  "fst (calcCompression exampleEnv (referencePath exampleTest) (currentPath exampleTest)
          \<lparr>files = emptyCaptureFiles, trace = []\<rparr>) = Inr PosInfinity"
proof -
  have "statSize exampleEnv emptyCaptureFiles (referencePath exampleTest) = Inr 900"
    unfolding statSize_def ex_ref by (simp add: emptyCaptureFiles_def exampleFiles_def ascii_def)
  moreover have "statSize exampleEnv emptyCaptureFiles (currentPath exampleTest) = Inr 0"
    unfolding statSize_def ex_cur by (simp add: emptyCaptureFiles_def)
  moreover have "currentPath exampleTest \<noteq> referencePath exampleTest"
    "currentPath exampleTest \<noteq> ascii ''difference''"
    by (simp_all add: exampleTest_def ascii_def)
  ultimately show ?thesis
    by (simp add: calcCompression_def compareSize_def thenP_def resolved_def emit_def
        roundRate_def mathRoundDiv_def)
qed

lemma ex_colliding:
  "statSize exampleEnv collidingFiles (referencePath exampleTest) = Inr 900"
  "statSize exampleEnv collidingFiles (ascii ''difference'') = Inr 750"
  "fst (calcCompression exampleEnv (referencePath exampleTest) (ascii ''difference'')
          \<lparr>files = collidingFiles, trace = []\<rparr>) = Inr (Num 100)"
proof -
  have d: "resolve (cwd exampleEnv) (ascii ''difference'') = [ascii ''work'', ascii ''difference'']"
    by (simp add: exampleEnv_def ev)
  show r: "statSize exampleEnv collidingFiles (referencePath exampleTest) = Inr 900"
    unfolding statSize_def ex_ref by (simp add: collidingFiles_def exampleFiles_def ascii_def)
  show c: "statSize exampleEnv collidingFiles (ascii ''difference'') = Inr 750"
    unfolding statSize_def d by (simp add: collidingFiles_def)
  have "referencePath exampleTest \<noteq> ascii ''difference''"
    by (simp add: exampleTest_def ascii_def)
  with r c show "fst (calcCompression exampleEnv (referencePath exampleTest) (ascii ''difference'')
          \<lparr>files = collidingFiles, trace = []\<rparr>) = Inr (Num 100)"
    by (simp add: calcCompression_def compareSize_def thenP_def resolved_def emit_def
        roundRate_def mathRoundDiv_def)
qed

lemma round_examples:
  "round (real_of_int ((750 - 1000) * 100) / real_of_int 750) = - 33"
  "round (real_of_int (abs (750 - 1000) * 100) / real_of_int 750) = 33"
  "round (real_of_int (abs (30000 - 15000) * 100) / real_of_int 30000) = 50"
  "round (real_of_int (abs (750 - 900) * 100) / real_of_int 750) = 20"
proof -
  have "mathRoundDiv ((750 - 1000) * 100) 750 = Num (- 33)" by (simp add: mathRoundDiv_def)
  then show "round (real_of_int ((750 - 1000) * 100) / real_of_int 750) = - 33"
    using mathRoundDiv_round [of 750 "(750 - 1000) * 100"] by simp
  have "mathRoundDiv (abs (750 - 1000) * 100) 750 = Num 33" by (simp add: mathRoundDiv_def)
  then show "round (real_of_int (abs (750 - 1000) * 100) / real_of_int 750) = 33"
    using mathRoundDiv_round [of 750 "abs (750 - 1000) * 100"] by simp
  have "mathRoundDiv (abs (30000 - 15000) * 100) 30000 = Num 50" by (simp add: mathRoundDiv_def)
  then show "round (real_of_int (abs (30000 - 15000) * 100) / real_of_int 30000) = 50"
    using mathRoundDiv_round [of 30000 "abs (30000 - 15000) * 100"] by simp
  have "mathRoundDiv (abs (750 - 900) * 100) 750 = Num 20" by (simp add: mathRoundDiv_def)
  then show "round (real_of_int (abs (750 - 900) * 100) / real_of_int 750) = 20"
    using mathRoundDiv_round [of 750 "abs (750 - 900) * 100"] by simp
qed

lemma ex_wellFormed: "wellFormed (files exampleWorld)"
  by (auto simp: wellFormed_def exampleWorld_def exampleFiles_def ascii_def split: if_splits)

lemma ex_dirs:
  "resolve (cwd exampleEnv) (currentDir exampleApp) = [ascii ''tmp'', ascii ''curr'']"
  "resolve (cwd exampleEnv) (diffDir exampleApp) = [ascii ''tmp'', ascii ''diff'']"
  by (simp_all add: exampleEnv_def exampleApp_def ev)

section \<open>The claims\<close>

text \<open>
  Claim C1. For a test descriptor that is not in the failed-test index,
  \<open>updateReferenceImage\<close> is rejected with the error \<open>No such test failed\<close> and leaves the
  world as it was: no directory is made, nothing is deleted, no subprocess is run, and no
  call to a collaborator is recorded.
\<close>

theorem update_unknown_test_rejected:
  "Index_find (failedTests a) d = None \<Longrightarrow>
   updateReferenceImage e a d w = (Inl (Error (ascii ''No such test failed'')), w)"
  by (simp add: updateReferenceImage_def rejected_def)

theorem update_unknown_test_rejected_witness:
  "Index_find (failedTests (exampleApp\<lparr>failedTests := Index_new\<rparr>)) exampleDescriptor = None \<and>
   updateReferenceImage exampleEnv (exampleApp\<lparr>failedTests := Index_new\<rparr>) exampleDescriptor
       exampleWorld
     = (Inl (Error (ascii ''No such test failed'')), exampleWorld)"
proof -
  have h: "Index_find (failedTests (exampleApp\<lparr>failedTests := Index_new\<rparr>)) exampleDescriptor = None"
    by (simp add: Index_find_def Index_new_def)
  from h update_unknown_test_rejected [OF h] show ?thesis by (intro conjI)
qed

text \<open>
  Claim C2. For a descriptor found in the index whose reference path is a file when
  \<open>updateReferenceImage\<close> is called: the first call is \<open>makeTree\<close> on the directory of the
  reference path; when it is rejected nothing else is called; when it is fulfilled, the
  calls go on with \<open>isFile\<close>, \<open>remove\<close> of the reference path and only then \<open>execFile\<close> of
  optipng with \<open>-out\<close>, the reference path and the current path, and the subprocess runs on
  a file system from which the reference image is gone.
\<close>

theorem delete_precedes_recompression:
  assumes found: "Index_find (failedTests a) d = Some t"
    and isfile: "files w (resolve (cwd e) (referencePath t)) = Some (File n)"
  shows
    "(fst (fs_makeTree e (dirname (referencePath t)) w) \<noteq> Inr () \<longrightarrow>
        trace (snd (updateReferenceImage e a d w))
          = trace w @ [MakeTree (dirname (referencePath t))]) \<and>
     (fst (fs_makeTree e (dirname (referencePath t)) w) = Inr () \<longrightarrow>
        (\<exists>rest. trace (snd (updateReferenceImage e a d w))
           = trace w @ [MakeTree (dirname (referencePath t)), IsFile (referencePath t),
                        Remove (referencePath t),
                        ExecFile (optipng e) [ascii ''-out'', referencePath t, currentPath t]]
               @ rest) \<and>
        files (snd (updateReferenceImage e a d w))
          = snd (subprocess e (optipng e) [ascii ''-out'', referencePath t, currentPath t]
                  ((files (snd (fs_makeTree e (dirname (referencePath t)) w)))
                     (resolve (cwd e) (referencePath t) := None))))"
proof (intro conjI impI)
  let ?ref = "referencePath t" and ?cur = "currentPath t"
  let ?mk = "fs_makeTree e (dirname ?ref)"
  let ?w1 = "snd (?mk w)"
  assume "fst (?mk w) \<noteq> Inr ()"
  then obtain err where "fst (?mk w) = Inl err" by (cases "fst (?mk w)") auto
  then show "trace (snd (updateReferenceImage e a d w)) = trace w @ [MakeTree (dirname ?ref)]"
    using found by (simp add: updateReferenceImage_def thenP_failed fs_makeTree_trace)
next
  let ?ref = "referencePath t" and ?cur = "currentPath t"
  let ?mk = "fs_makeTree e (dirname ?ref)"
  let ?w1 = "snd (?mk w)"
  let ?w2 = "\<lparr>files = (files ?w1)(resolve (cwd e) ?ref := None),
              trace = trace ?w1 @ [IsFile ?ref, Remove ?ref]\<rparr>"
  let ?K = "\<lambda>compressionRate. thenP (console_log (updateMessage ?ref compressionRate))
              (\<lambda>_. fromSum (refPathToURL (cwd e) (now e) a ?ref (browserId t)))"
  assume ok: "fst (?mk w) = Inr ()"
  have file1: "files ?w1 (resolve (cwd e) ?ref) = Some (File n)"
    using isfile by (rule fs_makeTree_files)
  have del: "deleteRefImg e ?ref ?w1 = (Inr (), ?w2)"
    using file1 by (rule deleteRefImg_file)
  have run: "updateReferenceImage e a d w =
      thenP (compressAndCopyRefImg e ?ref ?cur) (\<lambda>_. thenP (calcCompression e ?ref ?cur) ?K) ?w2"
    using found ok del by (simp add: updateReferenceImage_def thenP_ok)
  let ?w3 = "snd (compressAndCopyRefImg e ?ref ?cur ?w2)"
  have tr3: "trace ?w3 = trace w @ [MakeTree (dirname ?ref), IsFile ?ref, Remove ?ref,
                ExecFile (optipng e) [ascii ''-out'', ?ref, ?cur]]"
    by (simp add: compress_trace fs_makeTree_trace)
  have fs3: "files ?w3 = snd (subprocess e (optipng e) [ascii ''-out'', ?ref, ?cur]
                  ((files ?w1)(resolve (cwd e) ?ref := None)))"
    by (simp add: compress_files)
  obtain rest where rest: "trace (snd (thenP (calcCompression e ?ref ?cur) ?K ?w3)) = trace ?w3 @ rest"
    using report_trace by blast
  have fin: "snd (updateReferenceImage e a d w) = ?w3 \<or>
             snd (updateReferenceImage e a d w) = snd (thenP (calcCompression e ?ref ?cur) ?K ?w3)"
  proof (cases "fst (compressAndCopyRefImg e ?ref ?cur ?w2)")
    case (Inl err)
    then show ?thesis unfolding run by (simp only: thenP_failed) simp
  next
    case (Inr u)
    then show ?thesis unfolding run by (simp only: thenP_ok) simp
  qed
  from fin show "\<exists>rest. trace (snd (updateReferenceImage e a d w))
           = trace w @ [MakeTree (dirname ?ref), IsFile ?ref, Remove ?ref,
                        ExecFile (optipng e) [ascii ''-out'', ?ref, ?cur]] @ rest"
  proof
    assume "snd (updateReferenceImage e a d w) = ?w3"
    then have "trace (snd (updateReferenceImage e a d w))
           = trace w @ [MakeTree (dirname ?ref), IsFile ?ref, Remove ?ref,
                        ExecFile (optipng e) [ascii ''-out'', ?ref, ?cur]] @ []"
      using tr3 by simp
    then show ?thesis by (rule exI)
  next
    assume "snd (updateReferenceImage e a d w) = snd (thenP (calcCompression e ?ref ?cur) ?K ?w3)"
    then have "trace (snd (updateReferenceImage e a d w))
           = trace w @ [MakeTree (dirname ?ref), IsFile ?ref, Remove ?ref,
                        ExecFile (optipng e) [ascii ''-out'', ?ref, ?cur]] @ rest"
      using rest tr3 by simp
    then show ?thesis by (rule exI)
  qed
  from fin show "files (snd (updateReferenceImage e a d w))
          = snd (subprocess e (optipng e) [ascii ''-out'', ?ref, ?cur]
                  ((files ?w1)(resolve (cwd e) ?ref := None)))"
    using fs3 report_files [of e ?ref ?cur _ _ ?w3] by auto
qed

theorem delete_precedes_recompression_witness:
  "Index_find (failedTests exampleApp) exampleDescriptor = Some exampleTest \<and>
   files exampleWorld (resolve (cwd exampleEnv) (referencePath exampleTest)) = Some (File 900) \<and>
   fst (fs_makeTree exampleEnv (dirname (referencePath exampleTest)) exampleWorld) = Inr () \<and>
   (\<exists>rest. trace (snd (updateReferenceImage exampleEnv exampleApp exampleDescriptor exampleWorld))
      = trace exampleWorld @
        [MakeTree (dirname (referencePath exampleTest)), IsFile (referencePath exampleTest),
         Remove (referencePath exampleTest),
         ExecFile (optipng exampleEnv)
           [ascii ''-out'', referencePath exampleTest, currentPath exampleTest]] @ rest) \<and>
   files \<lparr>files = brokenFiles, trace = []\<rparr> (resolve (cwd exampleEnv) (referencePath exampleTest))
     = Some (File 900) \<and>
   fst (fs_makeTree exampleEnv (dirname (referencePath exampleTest))
          \<lparr>files = brokenFiles, trace = []\<rparr>) \<noteq> Inr () \<and>
   trace (snd (updateReferenceImage exampleEnv exampleApp exampleDescriptor
                 \<lparr>files = brokenFiles, trace = []\<rparr>))
     = [MakeTree (dirname (referencePath exampleTest))]"
proof -
  have mk: "fst (fs_makeTree exampleEnv (dirname (referencePath exampleTest)) exampleWorld) = Inr ()"
    by (simp add: ex_makeTree)
  from delete_precedes_recompression [OF ex_found ex_isfile] mk
  have ok: "\<exists>rest. trace (snd (updateReferenceImage exampleEnv exampleApp exampleDescriptor exampleWorld))
      = trace exampleWorld @
        [MakeTree (dirname (referencePath exampleTest)), IsFile (referencePath exampleTest),
         Remove (referencePath exampleTest),
         ExecFile (optipng exampleEnv)
           [ascii ''-out'', referencePath exampleTest, currentPath exampleTest]] @ rest"
    by blast
  have isfile: "files \<lparr>files = brokenFiles, trace = []\<rparr>
      (resolve (cwd exampleEnv) (referencePath exampleTest)) = Some (File 900)"
    unfolding ex_ref by (simp add: brokenFiles_def exampleFiles_def ascii_def)
  have bad: "fst (fs_makeTree exampleEnv (dirname (referencePath exampleTest))
          \<lparr>files = brokenFiles, trace = []\<rparr>) \<noteq> Inr ()"
    by (simp add: ex_makeTree_broken)
  from delete_precedes_recompression [OF ex_found isfile] bad
  have stop: "trace (snd (updateReferenceImage exampleEnv exampleApp exampleDescriptor
                 \<lparr>files = brokenFiles, trace = []\<rparr>))
     = [MakeTree (dirname (referencePath exampleTest))]"
    by simp
  from ex_found ex_isfile mk ok isfile bad stop show ?thesis by (intro conjI)
qed

text \<open>
  Claim C3, as amended. When \<open>updateReferenceImage\<close> is fulfilled for a current capture
  that is not empty and whose path is not the string \<open>difference\<close>, the compression delta
  it logs is \<open>round(|originalSize - recompressedSize| * 100 / originalSize)\<close>, with
  \<open>originalSize\<close> the size of the current capture and \<open>recompressedSize\<close> the size of the
  reference file at the end; \<open>round\<close> is rounding to the nearest integer on the reals, a
  half rounded up. The result is an integer percentage that is never negative: 30000 and
  15000 give 50; 750 and 1000 give 33. The claim with the signed difference fails, since
  \<open>_calcCompression\<close> reads the entry \<open>difference\<close> of the size comparison, which has no
  sign: for 750 and 1000 the program logs 33 and not -33. It also fails for an empty
  capture, where the division by zero gives \<open>Infinity\<close>, and for a current path
  \<open>difference\<close>, where the size read under that key is the difference itself.
\<close>

theorem reported_compression_delta:
  assumes run: "updateReferenceImage e a d w = (Inr url, w')"
    and found: "Index_find (failedTests a) d = Some t"
    and orig: "statSize e (files w') (currentPath t) = Inr originalSize"
    and recomp: "statSize e (files w') (referencePath t) = Inr recompressedSize"
    and pos: "0 < originalSize"
    and key: "currentPath t \<noteq> ascii ''difference''"
  shows "last (trace w') =
           ConsoleLog (updateMessage (referencePath t)
             (Num (round (real_of_int (abs (originalSize - recompressedSize) * 100)
                          / real_of_int originalSize)))) \<and>
         0 \<le> round (real_of_int (abs (originalSize - recompressedSize) * 100)
                      / real_of_int originalSize)"
proof -
  let ?ref = "referencePath t" and ?cur = "currentPath t"
  let ?url = "fromSum (refPathToURL (cwd e) (now e) a ?ref (browserId t))"
  from run found have chain:
    "thenP (fs_makeTree e (dirname ?ref)) (\<lambda>_.
       thenP (deleteRefImg e ?ref) (\<lambda>_.
       thenP (compressAndCopyRefImg e ?ref ?cur) (\<lambda>_.
       thenP (calcCompression e ?ref ?cur) (\<lambda>compressionRate.
       thenP (console_log (updateMessage ?ref compressionRate)) (\<lambda>_. ?url))))) w
     = (Inr url, w')"
    by (simp add: updateReferenceImage_def)
  then obtain u1 w1 where
    "thenP (deleteRefImg e ?ref) (\<lambda>_.
       thenP (compressAndCopyRefImg e ?ref ?cur) (\<lambda>_.
       thenP (calcCompression e ?ref ?cur) (\<lambda>compressionRate.
       thenP (console_log (updateMessage ?ref compressionRate)) (\<lambda>_. ?url)))) w1
     = (Inr url, w')"
    by (rule thenP_InrE)
  then obtain u2 w2 where
    "thenP (compressAndCopyRefImg e ?ref ?cur) (\<lambda>_.
       thenP (calcCompression e ?ref ?cur) (\<lambda>compressionRate.
       thenP (console_log (updateMessage ?ref compressionRate)) (\<lambda>_. ?url))) w2
     = (Inr url, w')"
    by (rule thenP_InrE)
  then obtain u3 w3 where
    "thenP (calcCompression e ?ref ?cur) (\<lambda>compressionRate.
       thenP (console_log (updateMessage ?ref compressionRate)) (\<lambda>_. ?url)) w3
     = (Inr url, w')"
    by (rule thenP_InrE)
  then obtain rate w4 where calc: "calcCompression e ?ref ?cur w3 = (Inr rate, w4)"
    and logged: "thenP (console_log (updateMessage ?ref rate)) (\<lambda>_. ?url) w4 = (Inr url, w')"
    by (rule thenP_InrE)
  from logged have w': "w' = emit (ConsoleLog (updateMessage ?ref rate)) w4"
    by (auto simp: thenP_def console_log_def fromSum_def)
  from calcCompression_result [OF calc key] obtain sr sc where
    sr: "statSize e (files w3) ?ref = Inr sr" and sc: "statSize e (files w3) ?cur = Inr sc"
    and rate: "rate = mathRoundDiv (abs (sc - sr) * 100) sc" and f4: "files w4 = files w3"
    by blast
  have "files w' = files w3" by (simp add: w' emit_def f4)
  with orig recomp sr sc have "sc = originalSize" "sr = recompressedSize" by simp_all
  with rate pos have "rate = Num (round (real_of_int (abs (originalSize - recompressedSize) * 100)
                          / real_of_int originalSize))"
    by (simp only: mathRoundDiv_round)
  then have "last (trace w') =
           ConsoleLog (updateMessage (referencePath t)
             (Num (round (real_of_int (abs (originalSize - recompressedSize) * 100)
                          / real_of_int originalSize))))"
    by (simp add: w' emit_def)
  moreover have "0 \<le> round (real_of_int (abs (originalSize - recompressedSize) * 100)
                      / real_of_int originalSize)"
  proof -
    have "0 \<le> real_of_int (abs (originalSize - recompressedSize) * 100) / real_of_int originalSize"
      using pos by simp
    then have "round (0::real) \<le> round (real_of_int (abs (originalSize - recompressedSize) * 100)
                      / real_of_int originalSize)"
      by (rule round_mono)
    then show ?thesis by simp
  qed
  ultimately show ?thesis by (intro conjI)
qed

theorem reported_compression_delta_witness:
  "fst (updateReferenceImage halvingEnv exampleApp exampleDescriptor
          \<lparr>files = largeFiles, trace = []\<rparr>)
     = Inr (ascii ''/ref/chrome/suite/plain/chrome.png?t=1478000000000'') \<and>
   statSize halvingEnv
     (files (snd (updateReferenceImage halvingEnv exampleApp exampleDescriptor
                    \<lparr>files = largeFiles, trace = []\<rparr>)))
     (currentPath exampleTest) = Inr 30000 \<and>
   statSize halvingEnv
     (files (snd (updateReferenceImage halvingEnv exampleApp exampleDescriptor
                    \<lparr>files = largeFiles, trace = []\<rparr>)))
     (referencePath exampleTest) = Inr 15000 \<and>
   last (trace (snd (updateReferenceImage halvingEnv exampleApp exampleDescriptor
                       \<lparr>files = largeFiles, trace = []\<rparr>)))
     = ConsoleLog (ascii ''Reference image /shots/suite/plain/chrome.png has been updated (compressed on: 50%).'')"
proof -
  let ?run = "updateReferenceImage halvingEnv exampleApp exampleDescriptor
                \<lparr>files = largeFiles, trace = []\<rparr>"
  have run: "?run = (Inr (ascii ''/ref/chrome/suite/plain/chrome.png?t=1478000000000''), snd ?run)"
    by (simp add: hv_run)
  have orig: "statSize halvingEnv (files (snd ?run)) (currentPath exampleTest) = Inr 30000"
    unfolding hv_run using hv_sizes(2) by simp
  have recomp: "statSize halvingEnv (files (snd ?run)) (referencePath exampleTest) = Inr 15000"
    unfolding hv_run using hv_sizes(1) by simp
  have key: "currentPath exampleTest \<noteq> ascii ''difference''"
    by (simp add: exampleTest_def ascii_def)
  have pos: "(0::int) < 30000" by simp
  from reported_compression_delta [OF run ex_found orig recomp pos key]
  have "last (trace (snd ?run)) = ConsoleLog (updateMessage (referencePath exampleTest)
          (Num (round (real_of_int (abs (30000 - 15000) * 100) / real_of_int 30000))))"
    by (rule conjunct1)
  then have logged: "last (trace (snd ?run)) = ConsoleLog (ascii ''Reference image /shots/suite/plain/chrome.png has been updated (compressed on: 50%).'')"
    by (simp only: round_examples hv_message)
  have url: "fst ?run = Inr (ascii ''/ref/chrome/suite/plain/chrome.png?t=1478000000000'')"
    by (simp add: hv_run)
  from url orig recomp logged show ?thesis by (intro conjI)
qed

theorem reported_compression_delta_counterexample:
  "fst (updateReferenceImage exampleEnv exampleApp exampleDescriptor exampleWorld)
     = Inr (ascii ''/ref/chrome/suite/plain/chrome.png?t=1478000000000'') \<and>
   statSize exampleEnv
     (files (snd (updateReferenceImage exampleEnv exampleApp exampleDescriptor exampleWorld)))
     (currentPath exampleTest) = Inr 750 \<and>
   statSize exampleEnv
     (files (snd (updateReferenceImage exampleEnv exampleApp exampleDescriptor exampleWorld)))
     (referencePath exampleTest) = Inr 1000 \<and>
   last (trace (snd (updateReferenceImage exampleEnv exampleApp exampleDescriptor exampleWorld)))
     = ConsoleLog (ascii ''Reference image /shots/suite/plain/chrome.png has been updated (compressed on: 33%).'') \<and>
   round (real_of_int ((750 - 1000) * 100) / real_of_int 750) = - 33 \<and>
   last (trace (snd (updateReferenceImage exampleEnv exampleApp exampleDescriptor exampleWorld)))
     \<noteq> ConsoleLog (updateMessage (referencePath exampleTest)
           (Num (round (real_of_int ((750 - 1000) * 100) / real_of_int 750)))) \<and>
   statSize exampleEnv emptyCaptureFiles (currentPath exampleTest) = Inr 0 \<and>
   fst (calcCompression exampleEnv (referencePath exampleTest) (currentPath exampleTest)
          \<lparr>files = emptyCaptureFiles, trace = []\<rparr>) = Inr PosInfinity \<and>
   statSize exampleEnv collidingFiles (referencePath exampleTest) = Inr 900 \<and>
   statSize exampleEnv collidingFiles (ascii ''difference'') = Inr 750 \<and>
   fst (calcCompression exampleEnv (referencePath exampleTest) (ascii ''difference'')
          \<lparr>files = collidingFiles, trace = []\<rparr>) = Inr (Num 100) \<and>
   round (real_of_int (abs (750 - 900) * 100) / real_of_int 750) = 20"
proof -
  let ?run = "updateReferenceImage exampleEnv exampleApp exampleDescriptor exampleWorld"
  have url: "fst ?run = Inr (ascii ''/ref/chrome/suite/plain/chrome.png?t=1478000000000'')"
    by (simp add: ex_run)
  have orig: "statSize exampleEnv (files (snd ?run)) (currentPath exampleTest) = Inr 750"
    unfolding ex_run statSize_def ex_cur ex_ref by (simp add: exampleFiles_def ascii_def)
  have recomp: "statSize exampleEnv (files (snd ?run)) (referencePath exampleTest) = Inr 1000"
    unfolding ex_run by (simp add: statSize_def)
  have logged: "last (trace (snd ?run))
      = ConsoleLog (ascii ''Reference image /shots/suite/plain/chrome.png has been updated (compressed on: 33%).'')"
    by (simp add: ex_run)
  have neq: "updateMessage (referencePath exampleTest) (Num 33)
      \<noteq> updateMessage (referencePath exampleTest) (Num (- 33))"
    by (simp add: updateMessage_def ascii_def decimal.simps)
  have differs: "last (trace (snd ?run))
     \<noteq> ConsoleLog (updateMessage (referencePath exampleTest)
           (Num (round (real_of_int ((750 - 1000) * 100) / real_of_int 750))))"
    unfolding logged round_examples(1) using neq by (simp add: ex_message)
  have empty: "statSize exampleEnv emptyCaptureFiles (currentPath exampleTest) = Inr 0"
    unfolding statSize_def ex_cur by (simp add: emptyCaptureFiles_def)
  from url orig recomp logged round_examples(1) differs empty ex_empty_capture ex_colliding
    round_examples(4)
  show ?thesis by (intro conjI)
qed

text \<open>
  Claim C4. \<open>filterBrowsers\<close> is the intersection of the configured and the requested
  browser ids, each id once; with a browser selection, \<open>_readTests\<close> replaces the browser
  list of every suite by \<open>filterBrowsers\<close> of that list and the selection, which for a suite
  with configured browsers only is that list cut down to the effective selection, and for a
  suite with all configured browsers is the effective selection itself; a requested id
  that is not configured is never in the result; and the constructor prints exactly one
  warning when there are such ids, naming them and the configured ids, and none otherwise.
\<close>

theorem browser_selection:
  "set (filterBrowsers cfg cli) = set cfg \<inter> set cli \<and>
   distinct (filterBrowsers cfg cli) \<and>
   readTests (a\<lparr>optBrowser := Some cli\<rparr>) (Inr suites)
     = Inr (map (\<lambda>s. s\<lparr>browsers := filterBrowsers (browsers s) cli\<rparr>) suites) \<and>
   (\<forall>s. set (browsers s) \<subseteq> set cfg \<longrightarrow>
        set (filterBrowsers (browsers s) cli)
          = set (browsers s) \<inter> set (filterBrowsers cfg cli)) \<and>
   (\<forall>s. browsers s = cfg \<longrightarrow> filterBrowsers (browsers s) cli = filterBrowsers cfg cli) \<and>
   (\<forall>x. x \<in> set cli \<and> x \<notin> set cfg \<longrightarrow> x \<notin> set (filterBrowsers cfg cli)) \<and>
   snd (App_new yellow (Some cli) tmpDiff tmpCurr cfg sd) =
     (if set cli \<subseteq> set cfg then []
      else [yellow (ascii ''WARNING:'') @ ascii '' Unknown browser ids: ''
              @ join (ascii '', '') (filter (\<lambda>x. x \<notin> set cfg) cli)
              @ ascii ''. Use one of the browser ids specified in the config file: ''
              @ join (ascii '', '') cfg])"
proof (intro conjI)
  show "set (filterBrowsers cfg cli) = set cfg \<inter> set cli" by (rule set_filterBrowsers)
  show "distinct (filterBrowsers cfg cli)" by (rule distinct_filterBrowsers)
  show "readTests (a\<lparr>optBrowser := Some cli\<rparr>) (Inr suites)
     = Inr (map (\<lambda>s. s\<lparr>browsers := filterBrowsers (browsers s) cli\<rparr>) suites)"
    by (simp add: readTests_def)
  show "\<forall>s. set (browsers s) \<subseteq> set cfg \<longrightarrow>
        set (filterBrowsers (browsers s) cli)
          = set (browsers s) \<inter> set (filterBrowsers cfg cli)"
    by (auto simp: set_filterBrowsers)
  show "\<forall>s. browsers s = cfg \<longrightarrow> filterBrowsers (browsers s) cli = filterBrowsers cfg cli"
    by simp
  show "\<forall>x. x \<in> set cli \<and> x \<notin> set cfg \<longrightarrow> x \<notin> set (filterBrowsers cfg cli)"
    by (simp add: set_filterBrowsers)
  show "snd (App_new yellow (Some cli) tmpDiff tmpCurr cfg sd) =
     (if set cli \<subseteq> set cfg then []
      else [yellow (ascii ''WARNING:'') @ ascii '' Unknown browser ids: ''
              @ join (ascii '', '') (filter (\<lambda>x. x \<notin> set cfg) cli)
              @ ascii ''. Use one of the browser ids specified in the config file: ''
              @ join (ascii '', '') cfg])"
    by (auto simp: App_new_def checkUnknownBrowsers_def difference_def Let_def filter_empty_conv)
qed

theorem browser_selection_witness:
  "filterBrowsers [ascii ''chrome'', ascii ''firefox''] [ascii ''firefox'', ascii ''ie'']
     = [ascii ''firefox''] \<and>
   ascii ''ie'' \<notin> set (filterBrowsers [ascii ''chrome'', ascii ''firefox'']
                         [ascii ''firefox'', ascii ''ie'']) \<and>
   snd (App_new (\<lambda>s. s) (Some [ascii ''firefox'', ascii ''ie'']) (ascii ''/tmp/diff'')
          (ascii ''/tmp/curr'') [ascii ''chrome'', ascii ''firefox''] (\<lambda>b. ascii ''/shots''))
     = [ascii ''WARNING: Unknown browser ids: ie. Use one of the browser ids specified in the config file: chrome, firefox''] \<and>
   snd (App_new (\<lambda>s. s) (Some [ascii ''firefox'']) (ascii ''/tmp/diff'')
          (ascii ''/tmp/curr'') [ascii ''chrome'', ascii ''firefox''] (\<lambda>b. ascii ''/shots''))
     = []"
proof -
  let ?cfg = "[ascii ''chrome'', ascii ''firefox'']" and ?cli = "[ascii ''firefox'', ascii ''ie'']"
  have unknown: "ascii ''ie'' \<in> set ?cli \<and> ascii ''ie'' \<notin> set ?cfg" by (simp add: ascii_def)
  have notsub: "\<not> set ?cli \<subseteq> set ?cfg" by (simp add: ascii_def)
  have sub: "set [ascii ''firefox''] \<subseteq> set ?cfg" by (simp add: ascii_def)
  have flt: "filter (\<lambda>x. x \<notin> set ?cfg) ?cli = [ascii ''ie'']" by (simp add: ascii_def)
  note sel = browser_selection [of ?cfg ?cli exampleApp "[]" "\<lambda>s. s" "ascii ''/tmp/diff''"
      "ascii ''/tmp/curr''" "\<lambda>b. ascii ''/shots''"]
  note sel2 = browser_selection [of ?cfg "[ascii ''firefox'']" exampleApp "[]" "\<lambda>s. s"
      "ascii ''/tmp/diff''" "ascii ''/tmp/curr''" "\<lambda>b. ascii ''/shots''"]
  from sel unknown have a: "ascii ''ie'' \<notin> set (filterBrowsers ?cfg ?cli)" by blast
  from sel have "snd (App_new (\<lambda>s. s) (Some ?cli) (ascii ''/tmp/diff'') (ascii ''/tmp/curr'')
          ?cfg (\<lambda>b. ascii ''/shots''))
     = (if set ?cli \<subseteq> set ?cfg then []
        else [ascii ''WARNING:'' @ ascii '' Unknown browser ids: ''
              @ join (ascii '', '') (filter (\<lambda>x. x \<notin> set ?cfg) ?cli)
              @ ascii ''. Use one of the browser ids specified in the config file: ''
              @ join (ascii '', '') ?cfg])"
    by (elim conjE)
  with notsub have "snd (App_new (\<lambda>s. s) (Some ?cli) (ascii ''/tmp/diff'') (ascii ''/tmp/curr'')
          ?cfg (\<lambda>b. ascii ''/shots''))
     = [ascii ''WARNING:'' @ ascii '' Unknown browser ids: ''
              @ join (ascii '', '') (filter (\<lambda>x. x \<notin> set ?cfg) ?cli)
              @ ascii ''. Use one of the browser ids specified in the config file: ''
              @ join (ascii '', '') ?cfg]"
    by (simp only: if_False)
  then have b: "snd (App_new (\<lambda>s. s) (Some ?cli) (ascii ''/tmp/diff'') (ascii ''/tmp/curr'')
          ?cfg (\<lambda>b. ascii ''/shots''))
     = [ascii ''WARNING: Unknown browser ids: ie. Use one of the browser ids specified in the config file: chrome, firefox'']"
    unfolding flt by (simp add: ascii_def)
  from sel2 have "snd (App_new (\<lambda>s. s) (Some [ascii ''firefox'']) (ascii ''/tmp/diff'')
          (ascii ''/tmp/curr'') ?cfg (\<lambda>b. ascii ''/shots''))
     = (if set [ascii ''firefox''] \<subseteq> set ?cfg then []
        else [ascii ''WARNING:'' @ ascii '' Unknown browser ids: ''
              @ join (ascii '', '') (filter (\<lambda>x. x \<notin> set ?cfg) [ascii ''firefox''])
              @ ascii ''. Use one of the browser ids specified in the config file: ''
              @ join (ascii '', '') ?cfg])"
    by (elim conjE)
  with sub have n: "snd (App_new (\<lambda>s. s) (Some [ascii ''firefox'']) (ascii ''/tmp/diff'')
          (ascii ''/tmp/curr'') ?cfg (\<lambda>b. ascii ''/shots'')) = []"
    by (simp only: if_True)
  have c: "filterBrowsers ?cfg ?cli = [ascii ''firefox'']"
    by (simp add: filterBrowsers_def intersection_def ascii_def)
  from c a b n show ?thesis by (intro conjI)
qed

text \<open>
  Claim C5. A URL returned by \<open>refPathToURL\<close> or \<open>currentPathToURL\<close> ends with \<open>?t=\<close> and the
  decimal digits of the timestamp; at two different timestamps the URLs of the same path
  differ. \<open>diffPathToURL\<close> appends nothing to the encoded relative path: its URL is
  \<open>/diff/\<close> and the encoding, has a \<open>?\<close> only where the relative path has one, and so
  does not match \<open>\?t=\d+$\<close> for a relative path without \<open>?\<close>.
\<close>

theorem cache_busting_timestamp:
  "(refPathToURL wd t a p b = Inr u \<longrightarrow>
      matchesTimestamp u \<and> (\<exists>body. u = body @ ascii ''?t='' @ decimal t)) \<and>
   (currentPathToURL wd t a p = Inr u \<longrightarrow>
      matchesTimestamp u \<and> (\<exists>body. u = body @ ascii ''?t='' @ decimal t)) \<and>
   (refPathToURL wd t1 a p b = Inr u1 \<and> refPathToURL wd t2 a p b = Inr u2 \<and> t1 \<noteq> t2
      \<longrightarrow> u1 \<noteq> u2) \<and>
   (currentPathToURL wd t1 a p = Inr u1 \<and> currentPathToURL wd t2 a p = Inr u2 \<and> t1 \<noteq> t2
      \<longrightarrow> u1 \<noteq> u2) \<and>
   (diffPathToURL wd a p = Inr u \<longrightarrow>
      (\<exists>enc. encodeURI (relative wd (diffDir a) p) = Inr enc \<and> u = ascii ''/diff/'' @ enc) \<and>
      (0x3F \<in> set u \<longleftrightarrow> 0x3F \<in> set (relative wd (diffDir a) p)) \<and>
      (0x3F \<notin> set (relative wd (diffDir a) p) \<longrightarrow> \<not> matchesTimestamp u))"
proof (intro conjI impI)
  assume "refPathToURL wd t a p b = Inr u"
  then obtain x where u: "u = x @ ascii ''?t='' @ decimal t"
    by (auto simp: refPathToURL_def appendTimestampToURL_def map_sum_def
        split: option.splits sum.splits)
  then show "matchesTimestamp u" by (simp only: matches_appended)
  from u show "\<exists>body. u = body @ ascii ''?t='' @ decimal t" by blast
next
  assume "currentPathToURL wd t a p = Inr u"
  then obtain x where u: "u = x @ ascii ''?t='' @ decimal t"
    by (auto simp: currentPathToURL_def appendTimestampToURL_def map_sum_def split: sum.splits)
  then show "matchesTimestamp u" by (simp only: matches_appended)
  from u show "\<exists>body. u = body @ ascii ''?t='' @ decimal t" by blast
next
  assume "refPathToURL wd t1 a p b = Inr u1 \<and> refPathToURL wd t2 a p b = Inr u2 \<and> t1 \<noteq> t2"
  then show "u1 \<noteq> u2"
    by (auto simp: refPathToURL_def appendTimestampToURL_def map_sum_def
        split: option.splits sum.splits dest: decimal_inj)
next
  assume "currentPathToURL wd t1 a p = Inr u1 \<and> currentPathToURL wd t2 a p = Inr u2 \<and> t1 \<noteq> t2"
  then show "u1 \<noteq> u2"
    by (auto simp: currentPathToURL_def appendTimestampToURL_def map_sum_def
        split: sum.splits dest: decimal_inj)
next
  assume d: "diffPathToURL wd a p = Inr u"
  then obtain enc where enc: "encodeURI (relative wd (diffDir a) p) = Inr enc"
    and u: "u = diffPrefix @ ascii ''/'' @ enc"
    by (auto simp: diffPathToURL_def pathToURL_Inr)
  from enc u show "\<exists>enc. encodeURI (relative wd (diffDir a) p) = Inr enc \<and> u = ascii ''/diff/'' @ enc"
    by (simp add: diffPrefix_def ascii_def)
  from encodeURI_keeps [OF enc, of "0x3F"]
  show q: "0x3F \<in> set u \<longleftrightarrow> 0x3F \<in> set (relative wd (diffDir a) p)"
    by (simp add: u diffPrefix_def ascii_def)
  assume "0x3F \<notin> set (relative wd (diffDir a) p)"
  with q show "\<not> matchesTimestamp u" using matchesTimestamp_query by blast
qed

theorem cache_busting_timestamp_witness:
  "refPathToURL (ascii ''/work'') 1478000000000 exampleApp (referencePath exampleTest) (ascii ''chrome'')
     = Inr (ascii ''/ref/chrome/suite/plain/chrome.png?t=1478000000000'') \<and>
   matchesTimestamp (ascii ''/ref/chrome/suite/plain/chrome.png?t=1478000000000'') \<and>
   refPathToURL (ascii ''/work'') 1478000000001 exampleApp (referencePath exampleTest) (ascii ''chrome'')
     = Inr (ascii ''/ref/chrome/suite/plain/chrome.png?t=1478000000001'') \<and>
   ascii ''/ref/chrome/suite/plain/chrome.png?t=1478000000000''
     \<noteq> ascii ''/ref/chrome/suite/plain/chrome.png?t=1478000000001'' \<and>
   currentPathToURL (ascii ''/work'') 1478000000000 exampleApp (currentPath exampleTest)
     = Inr (ascii ''/curr/img.png?t=1478000000000'') \<and>
   matchesTimestamp (ascii ''/curr/img.png?t=1478000000000'') \<and>
   diffPathToURL (ascii ''/work'') exampleApp (ascii ''/tmp/diff/d-1.png'')
     = Inr (ascii ''/diff/d-1.png'') \<and>
   \<not> matchesTimestamp (ascii ''/diff/d-1.png'')"
proof -
  let ?u1 = "ascii ''/ref/chrome/suite/plain/chrome.png?t=1478000000000''"
  let ?u2 = "ascii ''/ref/chrome/suite/plain/chrome.png?t=1478000000001''"
  let ?uc = "ascii ''/curr/img.png?t=1478000000000''"
  let ?ud = "ascii ''/diff/d-1.png''"
  have r1: "refPathToURL (ascii ''/work'') 1478000000000 exampleApp (referencePath exampleTest)
             (ascii ''chrome'') = Inr ?u1"
    using ex_url by (simp add: exampleEnv_def exampleTest_def)
  have r2: "refPathToURL (ascii ''/work'') 1478000000001 exampleApp (referencePath exampleTest)
             (ascii ''chrome'') = Inr ?u2"
    by (simp add: refPathToURL_def exampleApp_def exampleTest_def pathToURL_def
        refPrefix_def appendTimestampToURL_def decimal.simps ev)
  have c: "currentPathToURL (ascii ''/work'') 1478000000000 exampleApp (currentPath exampleTest)
             = Inr ?uc"
    by (simp add: currentPathToURL_def exampleApp_def exampleTest_def pathToURL_def
        currentPrefix_def appendTimestampToURL_def decimal.simps ev)
  have rel: "relative (ascii ''/work'') (diffDir exampleApp) (ascii ''/tmp/diff/d-1.png'')
      = ascii ''d-1.png''"
    by (simp add: exampleApp_def ev)
  have d: "diffPathToURL (ascii ''/work'') exampleApp (ascii ''/tmp/diff/d-1.png'') = Inr ?ud"
    unfolding diffPathToURL_def pathToURL_def rel by (simp add: diffPrefix_def ev)
  have nq: "0x3F \<notin> set (relative (ascii ''/work'') (diffDir exampleApp) (ascii ''/tmp/diff/d-1.png''))"
    unfolding rel by (simp add: ascii_def)
  have ne: "(1478000000000::nat) \<noteq> 1478000000001" by simp
  have m1: "matchesTimestamp ?u1"
    using cache_busting_timestamp [of "ascii ''/work''" 1478000000000 exampleApp
      "referencePath exampleTest" "ascii ''chrome''" ?u1] r1 by blast
  have m2: "?u1 \<noteq> ?u2"
    using cache_busting_timestamp [of "ascii ''/work''" _ exampleApp
      "referencePath exampleTest" "ascii ''chrome''" _ 1478000000000 ?u1 1478000000001 ?u2]
      r1 r2 ne by blast
  have m3: "matchesTimestamp ?uc"
    using cache_busting_timestamp [of "ascii ''/work''" 1478000000000 exampleApp
      "currentPath exampleTest" _ ?uc] c by blast
  have m4: "\<not> matchesTimestamp ?ud"
    using cache_busting_timestamp [of "ascii ''/work''" _ exampleApp
      "ascii ''/tmp/diff/d-1.png''" _ ?ud] d nq by blast
  from r1 m1 r2 m2 c m3 d m4 show ?thesis by (intro conjI)
qed

text \<open>
  Claim C6, as amended. For every root directory, full path and prefix for which
  \<open>_pathToURL\<close> returns a URL, and whose relative path has neither \<open>?\<close> nor \<open>#\<close>:
  percent-decoding the path portion of the URL after the prefix gives exactly the relative
  path, whatever spaces or non-ASCII characters it has; the same holds for the URL with
  the timestamp appended. The claim without the restriction fails: \<open>encodeURI\<close> leaves
  \<open>#\<close> and \<open>?\<close> as they are, and the path portion of the URL ends there.
\<close>

theorem url_round_trip:
  assumes "pathToURL wd rootDir fullPath pre = Inr u"
    and "0x3F \<notin> set (relative wd rootDir fullPath)"
    and "0x23 \<notin> set (relative wd rootDir fullPath)"
  shows "percentDecodeString (urlPath (stripNamespace pre u))
           = Some (relative wd rootDir fullPath) \<and>
         percentDecodeString (urlPath (stripNamespace pre (appendTimestampToURL t u)))
           = Some (relative wd rootDir fullPath)"
proof -
  from assms(1) obtain enc where enc: "encodeURI (relative wd rootDir fullPath) = Inr enc"
    and u: "u = pre @ ascii ''/'' @ enc"
    by (auto simp: pathToURL_Inr)
  have "urlPath (relative wd rootDir fullPath) = relative wd rootDir fullPath"
    using assms(2,3) by (simp add: urlPath_id)
  with decode_path_of_encoded [OF enc]
  have d: "percentDecodeString (urlPath enc) = Some (relative wd rootDir fullPath)" by simp
  have "stripNamespace pre (appendTimestampToURL t u) = enc @ ascii ''?t='' @ decimal t"
    by (simp add: u appendTimestampToURL_def stripNamespace_def ascii_def)
  then have "urlPath (stripNamespace pre (appendTimestampToURL t u)) = urlPath enc"
    by (simp only: urlPath_query)
  with d show ?thesis by (simp add: u stripNamespace_url)
qed

theorem url_round_trip_witness:
  "pathToURL (ascii ''/work'') (ascii ''/shots'') examplePath (ascii ''/ref/chrome'')
     = Inr (ascii ''/ref/chrome/my%20suite/%C3%A9%E2%82%AC.png'') \<and>
   0x20 \<in> set (relative (ascii ''/work'') (ascii ''/shots'') examplePath) \<and>
   0xE9 \<in> set (relative (ascii ''/work'') (ascii ''/shots'') examplePath) \<and>
   percentDecodeString
     (urlPath (stripNamespace (ascii ''/ref/chrome'')
        (ascii ''/ref/chrome/my%20suite/%C3%A9%E2%82%AC.png'')))
     = Some (relative (ascii ''/work'') (ascii ''/shots'') examplePath) \<and>
   percentDecodeString
     (urlPath (stripNamespace (ascii ''/ref/chrome'')
        (ascii ''/ref/chrome/my%20suite/%C3%A9%E2%82%AC.png?t=1478000000000'')))
     = Some (relative (ascii ''/work'') (ascii ''/shots'') examplePath)"
proof -
  have rel: "relative (ascii ''/work'') (ascii ''/shots'') examplePath
      = ascii ''my suite/'' @ [0xE9, 0x20AC] @ ascii ''.png''"
    by (simp add: examplePath_def ev)
  have u: "pathToURL (ascii ''/work'') (ascii ''/shots'') examplePath (ascii ''/ref/chrome'')
     = Inr (ascii ''/ref/chrome/my%20suite/%C3%A9%E2%82%AC.png'')"
    unfolding pathToURL_def rel by (simp add: ev)
  have q: "0x3F \<notin> set (relative (ascii ''/work'') (ascii ''/shots'') examplePath)"
    and h: "0x23 \<notin> set (relative (ascii ''/work'') (ascii ''/shots'') examplePath)"
    and sp: "0x20 \<in> set (relative (ascii ''/work'') (ascii ''/shots'') examplePath)"
    and uc: "0xE9 \<in> set (relative (ascii ''/work'') (ascii ''/shots'') examplePath)"
    unfolding rel by (simp_all add: ascii_def)
  have stamped: "appendTimestampToURL 1478000000000
        (ascii ''/ref/chrome/my%20suite/%C3%A9%E2%82%AC.png'')
      = ascii ''/ref/chrome/my%20suite/%C3%A9%E2%82%AC.png?t=1478000000000''"
    by (simp add: appendTimestampToURL_def decimal.simps ascii_def)
  note rt = url_round_trip [OF u q h, of 1478000000000]
  from rt have a: "percentDecodeString
     (urlPath (stripNamespace (ascii ''/ref/chrome'')
        (ascii ''/ref/chrome/my%20suite/%C3%A9%E2%82%AC.png'')))
     = Some (relative (ascii ''/work'') (ascii ''/shots'') examplePath)"
    by (rule conjunct1)
  from rt have b: "percentDecodeString
     (urlPath (stripNamespace (ascii ''/ref/chrome'')
        (ascii ''/ref/chrome/my%20suite/%C3%A9%E2%82%AC.png?t=1478000000000'')))
     = Some (relative (ascii ''/work'') (ascii ''/shots'') examplePath)"
    unfolding stamped by (rule conjunct2)
  from u sp uc a b show ?thesis by (intro conjI)
qed

theorem url_round_trip_counterexample:
  "0x20 \<in> set (relative (ascii ''/work'') (ascii ''/shots'') (ascii ''/shots/issue #1/a b.png'')) \<and>
   pathToURL (ascii ''/work'') (ascii ''/shots'') (ascii ''/shots/issue #1/a b.png'') (ascii ''/diff'')
     = Inr (ascii ''/diff/issue%20#1/a%20b.png'') \<and>
   percentDecodeString (urlPath (stripNamespace (ascii ''/diff'') (ascii ''/diff/issue%20#1/a%20b.png'')))
     = Some (ascii ''issue '') \<and>
   relative (ascii ''/work'') (ascii ''/shots'') (ascii ''/shots/issue #1/a b.png'')
     = ascii ''issue #1/a b.png'' \<and>
   ascii ''issue '' \<noteq> ascii ''issue #1/a b.png''"
proof -
  have rel: "relative (ascii ''/work'') (ascii ''/shots'') (ascii ''/shots/issue #1/a b.png'')
     = ascii ''issue #1/a b.png''"
    by (simp add: ev)
  have u: "pathToURL (ascii ''/work'') (ascii ''/shots'') (ascii ''/shots/issue #1/a b.png'')
       (ascii ''/diff'') = Inr (ascii ''/diff/issue%20#1/a%20b.png'')"
    unfolding pathToURL_def rel by (simp add: ev)
  have d: "percentDecodeString
       (urlPath (stripNamespace (ascii ''/diff'') (ascii ''/diff/issue%20#1/a%20b.png'')))
     = Some (ascii ''issue '')"
    by (simp add: percentDecodeString_def urlPath_def stripNamespace_def hexValue_def
        codeUnits_def ascii_def)
  have sp: "0x20 \<in> set (relative (ascii ''/work'') (ascii ''/shots'') (ascii ''/shots/issue #1/a b.png''))"
    unfolding rel by (simp add: ascii_def)
  have ne: "ascii ''issue '' \<noteq> ascii ''issue #1/a b.png''" by (simp add: ascii_def)
  from sp u d rel ne show ?thesis by (intro conjI)
qed

text \<open>
  Claim C7. In a well-formed file system in which the parents of \<open>currentDir\<close> and
  \<open>diffDir\<close> are directories and neither of the two is the other or below it,
  \<open>_recreateTmpDirs\<close> is fulfilled, and afterwards both are directories with nothing
  below them, whether or not they existed or had files before; the rest of the file system
  is as it was.
\<close>

theorem recreate_leaves_both_directories_empty:
  assumes wf: "wellFormed (files w)"
    and c: "c = resolve (cwd e) (currentDir a)"
    and d: "d = resolve (cwd e) (diffDir a)"
    and cd: "\<not> prefix c d" and dc: "\<not> prefix d c"
    and pc: "files w (butlast c) = Some Dir"
    and pd: "files w (butlast d) = Some Dir"
  shows "fst (recreateTmpDirs e a w) = Inr ((), ()) \<and>
         files (snd (recreateTmpDirs e a w)) c = Some Dir \<and>
         files (snd (recreateTmpDirs e a w)) d = Some Dir \<and>
         (\<forall>p. strict_prefix c p \<or> strict_prefix d p \<longrightarrow>
                files (snd (recreateTmpDirs e a w)) p = None) \<and>
         (\<forall>p. \<not> prefix c p \<and> \<not> prefix d p \<longrightarrow>
                files (snd (recreateTmpDirs e a w)) p = files w p)"
proof -
  let ?r1 = "removeTreeIfExists e (currentDir a)"
  let ?r2 = "removeTreeIfExists e (diffDir a)"
  let ?m1 = "fs_makeDirectory e (currentDir a)"
  let ?m2 = "fs_makeDirectory e (diffDir a)"
  define w1 where "w1 = snd (?r1 w)"
  define w2 where "w2 = snd (?r2 w1)"
  define w3 where "w3 = snd (?m1 w2)"
  define w4 where "w4 = snd (?m2 w3)"
  have cne: "c \<noteq> []" and dne: "d \<noteq> []" using cd dc by auto
  have f1: "files w1 = removeBelow c (files w)"
    unfolding w1_def c by (rule removeTreeIfExists_files [OF wf])
  have wf1: "wellFormed (files w1)" unfolding f1 by (rule wellFormed_removeBelow [OF wf])
  have f2: "files w2 = removeBelow d (removeBelow c (files w))"
    unfolding w2_def d using removeTreeIfExists_files [OF wf1] f1 by simp
  have rem: "fst (all2 ?r1 ?r2 w) = Inr ((), ())"
    by (rule all2_fst) (rule removeTreeIfExists_fst)+
  have remw: "snd (all2 ?r1 ?r2 w) = w2"
    by (simp add: all2_snd w2_def w1_def)
  have nbc: "\<not> prefix d (butlast c)" "\<not> prefix c (butlast c)"
    using dc cne by (simp_all add: not_prefix_butlast not_prefix_own_butlast)
  have nbd: "\<not> prefix c (butlast d)" "\<not> prefix d (butlast d)"
    using cd dne by (simp_all add: not_prefix_butlast not_prefix_own_butlast)
  have p2c: "files w2 (butlast c) = Some Dir" and a2c: "files w2 c = None"
    using nbc pc by (simp_all add: f2 removeBelow_def)
  have m1: "fst (?m1 w2) = Inr ()" and f3: "files w3 = (files w2)(c \<mapsto> Dir)"
    unfolding w3_def using fs_makeDirectory_ok [OF c cne p2c a2c] by simp_all
  have cned: "c \<noteq> d" using cd by auto
  have bdc: "butlast d \<noteq> c" using nbd by auto
  have p3d: "files w3 (butlast d) = Some Dir" and a3d: "files w3 d = None"
    using nbd pd bdc cned by (simp_all add: f3 f2 removeBelow_def)
  have m2: "fst (?m2 w3) = Inr ()" and f4: "files w4 = (files w3)(d \<mapsto> Dir)"
    unfolding w4_def using fs_makeDirectory_ok [OF d dne p3d a3d] by simp_all
  have mk: "fst (all2 ?m1 ?m2 w2) = Inr ((), ())"
    by (rule all2_fst) (use m1 m2 in \<open>simp_all add: w3_def\<close>)
  have mkw: "snd (all2 ?m1 ?m2 w2) = w4"
    by (simp add: all2_snd w4_def w3_def)
  have run: "recreateTmpDirs e a w = all2 ?m1 ?m2 w2"
    unfolding recreateTmpDirs_def
    using thenP_ok [where p = "all2 ?r1 ?r2" and w = w, OF rem] remw by simp
  have fin: "files (snd (recreateTmpDirs e a w)) =
               (removeBelow d (removeBelow c (files w)))(c \<mapsto> Dir, d \<mapsto> Dir)"
    by (simp add: run mkw f4 f3 f2)
  show ?thesis
    unfolding fin using mk cned cd dc
    by (auto simp: run removeBelow_def strict_prefix_def)
qed

theorem recreate_leaves_both_directories_empty_witness:
  "files exampleWorld [ascii ''tmp'', ascii ''curr'', ascii ''img.png''] = Some (File 750) \<and>
   files exampleWorld [ascii ''tmp'', ascii ''diff''] = None \<and>
   fst (recreateTmpDirs exampleEnv exampleApp exampleWorld) = Inr ((), ()) \<and>
   files (snd (recreateTmpDirs exampleEnv exampleApp exampleWorld)) [ascii ''tmp'', ascii ''curr'']
     = Some Dir \<and>
   files (snd (recreateTmpDirs exampleEnv exampleApp exampleWorld)) [ascii ''tmp'', ascii ''diff'']
     = Some Dir \<and>
   files (snd (recreateTmpDirs exampleEnv exampleApp exampleWorld))
     [ascii ''tmp'', ascii ''curr'', ascii ''img.png''] = None"
proof -
  let ?c = "[ascii ''tmp'', ascii ''curr'']" and ?d = "[ascii ''tmp'', ascii ''diff'']"
  have cd: "\<not> prefix ?c ?d" and dc: "\<not> prefix ?d ?c" by (simp_all add: ascii_def)
  have pc: "files exampleWorld (butlast ?c) = Some Dir"
    and pd: "files exampleWorld (butlast ?d) = Some Dir"
    by (simp_all add: exampleWorld_def exampleFiles_def ascii_def)
  have before: "files exampleWorld [ascii ''tmp'', ascii ''curr'', ascii ''img.png''] = Some (File 750)"
    "files exampleWorld [ascii ''tmp'', ascii ''diff''] = None"
    by (simp_all add: exampleWorld_def exampleFiles_def ascii_def)
  have below: "strict_prefix ?c [ascii ''tmp'', ascii ''curr'', ascii ''img.png'']"
    by (simp add: strict_prefix_def)
  from recreate_leaves_both_directories_empty
         [OF ex_wellFormed ex_dirs(1) [symmetric] ex_dirs(2) [symmetric] cd dc pc pd] below
  have "fst (recreateTmpDirs exampleEnv exampleApp exampleWorld) = Inr ((), ())"
    "files (snd (recreateTmpDirs exampleEnv exampleApp exampleWorld)) ?c = Some Dir"
    "files (snd (recreateTmpDirs exampleEnv exampleApp exampleWorld)) ?d = Some Dir"
    "files (snd (recreateTmpDirs exampleEnv exampleApp exampleWorld))
       [ascii ''tmp'', ascii ''curr'', ascii ''img.png''] = None"
    by blast+
  with before show ?thesis by (intro conjI)
qed

text \<open>
  Claim C8. After \<open>addFailedTest\<close> of a test, \<open>find\<close> with any descriptor that has the same
  suite path, state name and browser id returns that test, also when the descriptor is a
  different value.
\<close>

theorem index_find_by_equal_descriptor:
  "keyOf d = keyOf t \<Longrightarrow> Index_find (failedTests (addFailedTest a t)) d = Some t"
  by (simp add: Index_find_def addFailedTest_def Index_add_def)

theorem index_find_by_equal_descriptor_witness:
  "keyOf exampleDescriptor = keyOf exampleTest \<and> exampleDescriptor \<noteq> exampleTest \<and>
   Index_find (failedTests (addFailedTest (exampleApp\<lparr>failedTests := Index_new\<rparr>) exampleTest))
     exampleDescriptor = Some exampleTest"
proof -
  have k: "keyOf exampleDescriptor = keyOf exampleTest"
    by (simp add: keyOf_def exampleDescriptor_def exampleTest_def)
  have n: "exampleDescriptor \<noteq> exampleTest"
    by (simp add: exampleDescriptor_def exampleTest_def ascii_def)
  from k n index_find_by_equal_descriptor [OF k] show ?thesis by (intro conjI)
qed

text \<open>
  Claim C9. Without a browser selection, \<open>_readTests\<close> leaves the suites as the engine
  returned them; with the empty selection it would empty every browser list.
\<close>

theorem readTests_without_browser_option:
  "readTests (a\<lparr>optBrowser := None\<rparr>) (Inr suites) = Inr suites \<and>
   readTests (a\<lparr>optBrowser := Some []\<rparr>) (Inr suites)
     = Inr (map (\<lambda>s. s\<lparr>browsers := []\<rparr>) suites)"
  by (simp add: readTests_def filterBrowsers_Nil)

theorem readTests_without_browser_option_witness:
  "readTests (exampleApp\<lparr>optBrowser := None\<rparr>)
       (Inr [\<lparr>suiteName = ascii ''suite'', browsers = [ascii ''chrome'', ascii ''firefox'']\<rparr>])
     = Inr [\<lparr>suiteName = ascii ''suite'', browsers = [ascii ''chrome'', ascii ''firefox'']\<rparr>]"
  using readTests_without_browser_option [of exampleApp
      "[\<lparr>suiteName = ascii ''suite'', browsers = [ascii ''chrome'', ascii ''firefox'']\<rparr>]"]
  by (rule conjunct1)

text \<open>
  Claim C10. When the relative path contains \<open>#\<close> or \<open>?\<close>, the URL that \<open>_pathToURL\<close>
  returns contains that character as it is, and percent-decoding the path portion of the
  URL does not give the relative path back.
\<close>

theorem hash_and_query_stay_verbatim:
  assumes "pathToURL wd rootDir fullPath pre = Inr u"
    and "q = 0x23 \<or> q = 0x3F"
    and "q \<in> set (relative wd rootDir fullPath)"
  shows "q \<in> set u \<and>
         percentDecodeString (urlPath (stripNamespace pre u))
           \<noteq> Some (relative wd rootDir fullPath)"
proof -
  from assms(1) obtain enc where enc: "encodeURI (relative wd rootDir fullPath) = Inr enc"
    and u: "u = pre @ ascii ''/'' @ enc"
    by (auto simp: pathToURL_Inr)
  have "q \<in> set enc" using encodeURI_keeps [OF enc, of q] assms(2,3) by auto
  then have "q \<in> set u" by (simp add: u)
  moreover have "urlPath (relative wd rootDir fullPath) \<noteq> relative wd rootDir fullPath"
    using assms(2,3) by (auto simp: urlPath_id)
  with decode_path_of_encoded [OF enc]
  have "percentDecodeString (urlPath (stripNamespace pre u))
           \<noteq> Some (relative wd rootDir fullPath)"
    by (simp add: u stripNamespace_url)
  ultimately show ?thesis by simp
qed

theorem hash_and_query_stay_verbatim_witness:
  "pathToURL (ascii ''/work'') (ascii ''/tmp/diff'') (ascii ''/tmp/diff/a#b?c.png'') diffPrefix
     = Inr (ascii ''/diff/a#b?c.png'') \<and>
   0x23 \<in> set (relative (ascii ''/work'') (ascii ''/tmp/diff'') (ascii ''/tmp/diff/a#b?c.png'')) \<and>
   0x23 \<in> set (ascii ''/diff/a#b?c.png'') \<and>
   percentDecodeString (urlPath (stripNamespace diffPrefix (ascii ''/diff/a#b?c.png'')))
     \<noteq> Some (relative (ascii ''/work'') (ascii ''/tmp/diff'') (ascii ''/tmp/diff/a#b?c.png''))"
proof -
  have rel: "relative (ascii ''/work'') (ascii ''/tmp/diff'') (ascii ''/tmp/diff/a#b?c.png'')
     = ascii ''a#b?c.png''"
    by (simp add: ev)
  have u: "pathToURL (ascii ''/work'') (ascii ''/tmp/diff'') (ascii ''/tmp/diff/a#b?c.png'') diffPrefix
     = Inr (ascii ''/diff/a#b?c.png'')"
    unfolding pathToURL_def rel by (simp add: ev diffPrefix_def)
  have h: "0x23 \<in> set (relative (ascii ''/work'') (ascii ''/tmp/diff'') (ascii ''/tmp/diff/a#b?c.png''))"
    unfolding rel by (simp add: ascii_def)
  from hash_and_query_stay_verbatim [OF u _ h]
  have "0x23 \<in> set (ascii ''/diff/a#b?c.png'')"
    "percentDecodeString (urlPath (stripNamespace diffPrefix (ascii ''/diff/a#b?c.png'')))
     \<noteq> Some (relative (ascii ''/work'') (ascii ''/tmp/diff'') (ascii ''/tmp/diff/a#b?c.png''))"
    by simp_all
  with u h show ?thesis by (intro conjI)
qed

end
